theory Spec2Isabelle
  imports Main "HOL-Library.Word"
begin

section \<open>JavaScript values\<close>

text \<open>
  A JavaScript string is a sequence of 16-bit code units, and \<open>length\<close> counts code
  units. \<open>js\<close> writes an ASCII literal of the source as such a string.
\<close>

type_synonym jsstring = "16 word list"

definition js :: "string \<Rightarrow> jsstring" where
  "js s = map of_char s"

text \<open>
  The values the field \<open>credits\<close> takes: a number or \<open>null\<close>. A JavaScript number is
  an IEEE double; of the doubles the model has those whose value is an integer (\<open>Num\<close>),
  the two infinities and \<open>NaN\<close>. Fractions and the sign of zero are not modelled: the
  code under study subtracts and compares integers.
\<close>

datatype jsval = Num int | Infinity | NegInfinity | NaN | Null

text \<open>
  The double nearest to an integer, ties to the even significand: a double has 53
  significant bits, so of a magnitude of more bits the low bits are rounded away, and a
  magnitude that rounds to \<open>2 ^ 1024\<close> or more is infinite. This is the value of an
  integer literal of a JSON body, and of the exact difference of two doubles.
\<close>

fun bit_length :: "nat \<Rightarrow> nat" where
  "bit_length n = (if n = 0 then 0 else Suc (bit_length (n div 2)))"

declare bit_length.simps [simp del]

definition round53 :: "nat \<Rightarrow> nat" where
  "round53 n =
     (let e = bit_length n - 53;
          q = n div 2 ^ e;
          r = n mod 2 ^ e
      in (if 2 ^ e < 2 * r \<or> (2 * r = 2 ^ e \<and> odd q) then q + 1 else q) * 2 ^ e)"

definition double_of_int :: "int \<Rightarrow> jsval" where
  "double_of_int x =
     (if 2 ^ 1024 \<le> round53 (nat \<bar>x\<bar>)
      then (if x < 0 then NegInfinity else Infinity)
      else Num (sgn x * int (round53 (nat \<bar>x\<bar>))))"

text \<open>\<open>v - w\<close>: both operands are converted to numbers (\<open>null\<close> to \<open>0\<close>), and the
  difference of two finite numbers is rounded to a double.\<close>

fun to_number :: "jsval \<Rightarrow> jsval" where
  "to_number Null = Num 0"
| "to_number v = v"

fun minus_number :: "jsval \<Rightarrow> jsval \<Rightarrow> jsval" where
  "minus_number (Num c) (Num a) = double_of_int (c - a)"
| "minus_number (Num c) Infinity = NegInfinity"
| "minus_number (Num c) NegInfinity = Infinity"
| "minus_number Infinity (Num a) = Infinity"
| "minus_number Infinity NegInfinity = Infinity"
| "minus_number NegInfinity (Num a) = NegInfinity"
| "minus_number NegInfinity Infinity = NegInfinity"
| "minus_number _ _ = NaN"

definition js_minus :: "jsval \<Rightarrow> jsval \<Rightarrow> jsval" where
  "js_minus v w = minus_number (to_number v) (to_number w)"

text \<open>\<open>v < n\<close> for an integer \<open>n\<close> that is a double; \<open>null\<close> converts to \<open>0\<close>, and a
  comparison with \<open>NaN\<close> is false.\<close>

fun js_less :: "jsval \<Rightarrow> int \<Rightarrow> bool" where
  "js_less (Num c) n = (c < n)"
| "js_less Infinity n = False"
| "js_less NegInfinity n = True"
| "js_less NaN n = False"
| "js_less Null n = (0 < n)"

record account =
  email :: jsstring
  credits :: jsval
  isPremium :: bool

section \<open>The session and credit service (server.ts)\<close>

text \<open>
  \<open>usersDb\<close> is the in-memory table of accounts, keyed by the mail address of the
  session cookie. The source uses a plain object, so a cookie that spells a property
  name of \<open>Object.prototype\<close> (\<open>constructor\<close>, \<open>__proto__\<close>, ...) finds the inherited
  value there and no account; the model has the accounts only, and says nothing about
  those cookies.
\<close>

type_synonym usersDb = "jsstring \<rightharpoonup> account"

definition SPECIAL_EMAILS :: "jsstring list" where
  "SPECIAL_EMAILS = [js ''amliyarsachin248@gmail.com'', js ''amaliyarmanu5@gmail.com'',
     js ''sachinamliyar15@gmail.com'', js ''robotlinkan@gmail.com'']"

text \<open>
  A response is a status with a JSON body. \<open>res.json\<close> writes the body with
  \<open>JSON.stringify\<close>, and JSON has no literal for \<open>Infinity\<close> or \<open>NaN\<close>: a number that
  is not finite is written \<open>null\<close>. \<open>to_json\<close> is the account as a reader of the body
  gets it back.
\<close>

fun json_number :: "jsval \<Rightarrow> jsval" where
  "json_number (Num c) = Num c"
| "json_number Infinity = Null"
| "json_number NegInfinity = Null"
| "json_number NaN = Null"
| "json_number Null = Null"

definition to_json :: "account \<Rightarrow> account" where
  "to_json u = u\<lparr>credits := json_number (credits u)\<rparr>"

datatype http_response = Status401 jsstring | Status200 account

text \<open>
  \<open>GET /api/user\<close>. The cookie \<open>mock_session\<close> is absent (\<open>None\<close>) or a string;
  the test \<open>if (mockEmail)\<close> fails for the absent and for the empty string.
\<close>

definition api_user :: "jsstring option \<Rightarrow> usersDb \<Rightarrow> http_response \<times> usersDb" where
  "api_user cookie db =
     (case cookie of
        None \<Rightarrow> (Status401 (js ''Unauthorized''), db)
      | Some mockEmail \<Rightarrow>
          if mockEmail = [] then (Status401 (js ''Unauthorized''), db)
          else (case db mockEmail of
                  None \<Rightarrow>
                    let isSpecial = (mockEmail \<in> set SPECIAL_EMAILS);
                        u = \<lparr>email = mockEmail,
                             credits = (if isSpecial then Infinity else Num 20000),
                             isPremium = isSpecial\<rparr>
                    in (Status200 (to_json u), db(mockEmail \<mapsto> u))
                | Some u \<Rightarrow> (Status200 (to_json u), db)))"

text \<open>
  \<open>POST /api/user/deduct\<close> with the body \<open>{amount}\<close>. The body may give any JSON value
  as the amount; the model takes the bodies whose amount is an integer literal \<open>amount\<close>,
  which the JSON parser reads as the double \<open>double_of_int amount\<close>. The handler
  subtracts it unless the balance is \<open>Infinity\<close>; it makes no other test on the amount
  or on the result.
\<close>

definition api_user_deduct ::
  "jsstring option \<Rightarrow> int \<Rightarrow> usersDb \<Rightarrow> http_response \<times> usersDb" where
  "api_user_deduct cookie amount db =
     (case cookie of
        None \<Rightarrow> (Status401 (js ''User not found''), db)
      | Some mail \<Rightarrow>
          if mail = [] then (Status401 (js ''User not found''), db)
          else (case db mail of
                  None \<Rightarrow> (Status401 (js ''User not found''), db)
                | Some u \<Rightarrow>
                    let u' = (if credits u \<noteq> Infinity
                              then u\<lparr>credits := js_minus (credits u) (double_of_int amount)\<rparr>
                              else u)
                    in (Status200 (to_json u'), db(mail \<mapsto> u'))))"

text \<open>The balance the table holds for a mail address.\<close>

definition balance :: "usersDb \<Rightarrow> jsstring \<Rightarrow> jsval option" where
  "balance db e = map_option credits (db e)"

section \<open>The audio container encoder (App.tsx, createWavUrl)\<close>

type_synonym byte = "8 word"

text \<open>What the platform throws: \<open>atob\<close> on a string that is not base64, a
  \<open>DataView\<close> or typed-array write outside the buffer.\<close>

datatype failure = InvalidCharacterError | RangeError

fun and_then :: "failure + 'a \<Rightarrow> ('a \<Rightarrow> failure + 'b) \<Rightarrow> failure + 'b" where
  "and_then (Inl e) f = Inl e"
| "and_then (Inr x) f = f x"

text \<open>A sequence of statements on one buffer; the first that throws ends it.\<close>

fun statements :: "('a \<Rightarrow> failure + 'a) list \<Rightarrow> 'a \<Rightarrow> failure + 'a" where
  "statements [] x = Inr x"
| "statements (f # fs) x = and_then (f x) (statements fs)"

text \<open>
  \<open>atob\<close> is the platform's forgiving base64 decoding: ASCII whitespace is removed;
  when the length is then a multiple of four, one or two trailing \<open>=\<close> are removed; a
  length that leaves the remainder one, or a character outside the base64 alphabet, is an
  error; every character stands for six bits, every 24 bits are three bytes, and of a
  last group of 12 or 18 bits the trailing 4 or 2 bits are dropped. The result is a
  string whose code units are the bytes.
\<close>

definition is_ascii_whitespace :: "16 word \<Rightarrow> bool" where
  "is_ascii_whitespace c = (c = 9 \<or> c = 10 \<or> c = 12 \<or> c = 13 \<or> c = 32)"

definition base64_value :: "16 word \<Rightarrow> nat option" where
  "base64_value c =
     (let n = unat c in
      if 65 \<le> n \<and> n \<le> 90 then Some (n - 65)
      else if 97 \<le> n \<and> n \<le> 122 then Some (n - 71)
      else if 48 \<le> n \<and> n \<le> 57 then Some (n + 4)
      else if n = 43 then Some 62
      else if n = 47 then Some 63
      else None)"

fun sextets :: "jsstring \<Rightarrow> nat list option" where
  "sextets [] = Some []"
| "sextets (c # cs) =
     (case base64_value c of
        None \<Rightarrow> None
      | Some v \<Rightarrow> map_option ((#) v) (sextets cs))"

fun decode_sextets :: "nat list \<Rightarrow> jsstring" where
  "decode_sextets (a # b # c # d # rest) =
     (let n = ((a * 64 + b) * 64 + c) * 64 + d
      in of_nat (n div 65536) # of_nat (n div 256 mod 256) # of_nat (n mod 256)
         # decode_sextets rest)"
| "decode_sextets [a, b, c] =
     (let n = (a * 64 + b) * 64 + c in [of_nat (n div 1024), of_nat (n div 4 mod 256)])"
| "decode_sextets [a, b] = [of_nat ((a * 64 + b) div 16)]"
| "decode_sextets _ = []"

definition strip_padding :: "jsstring \<Rightarrow> jsstring" where
  "strip_padding d =
     (let r = rev d in
      if take 2 r = [61, 61] then rev (drop 2 r)
      else if take 1 r = [61] then rev (drop 1 r)
      else d)"

definition atob :: "jsstring \<Rightarrow> failure + jsstring" where
  "atob data =
     (let d1 = filter (\<lambda>c. \<not> is_ascii_whitespace c) data;
          d2 = (if length d1 mod 4 = 0 then strip_padding d1 else d1)
      in if length d2 mod 4 = 1 then Inl InvalidCharacterError
         else (case sextets d2 of
                 None \<Rightarrow> Inl InvalidCharacterError
               | Some vs \<Rightarrow> Inr (decode_sextets vs)))"

text \<open>
  The \<open>DataView\<close> writes, little-endian. A value is converted to the width of the
  field, that is taken modulo \<open>2 ^ 8\<close>, \<open>2 ^ 16\<close> or \<open>2 ^ 32\<close>: byte \<open>k\<close> of the
  field is \<open>v div 256 ^ k\<close> modulo 256. A write that does not fit the buffer throws.
\<close>

definition le_bytes :: "nat \<Rightarrow> int \<Rightarrow> byte list" where
  "le_bytes n v = map (\<lambda>k. word_of_int (v div 256 ^ k)) [0..<n]"

definition store :: "byte list \<Rightarrow> nat \<Rightarrow> byte list \<Rightarrow> failure + byte list" where
  "store view byteOffset bs =
     (if byteOffset + length bs \<le> length view
      then Inr (take byteOffset view @ bs @ drop (byteOffset + length bs) view)
      else Inl RangeError)"

definition setUint8 :: "byte list \<Rightarrow> nat \<Rightarrow> int \<Rightarrow> failure + byte list" where
  "setUint8 view byteOffset v = store view byteOffset (le_bytes 1 v)"

definition setUint16 :: "byte list \<Rightarrow> nat \<Rightarrow> int \<Rightarrow> failure + byte list" where
  "setUint16 view byteOffset v = store view byteOffset (le_bytes 2 v)"

definition setUint32 :: "byte list \<Rightarrow> nat \<Rightarrow> int \<Rightarrow> failure + byte list" where
  "setUint32 view byteOffset v = store view byteOffset (le_bytes 4 v)"

text \<open>The loop of \<open>writeString\<close>: one \<open>setUint8\<close> for each code unit.\<close>

fun writeString :: "nat \<Rightarrow> jsstring \<Rightarrow> byte list \<Rightarrow> failure + byte list" where
  "writeString offset [] view = Inr view"
| "writeString offset (c # cs) view =
     and_then (setUint8 view offset (uint c)) (writeString (Suc offset) cs)"

text \<open>
  The buffer that \<open>createWavUrl\<close> builds: \<open>bytes\<close> takes each code unit of the decoded
  string modulo 256, the buffer starts as \<open>44 + bytes.length\<close> zero bytes, the header is
  written field by field, and the samples are copied in at offset 44.
\<close>

definition createWav :: "jsstring \<Rightarrow> int \<Rightarrow> failure + byte list" where
  "createWav base64 sampleRate =
     and_then (atob base64) (\<lambda>binaryString.
       let bytes = map ucast binaryString :: byte list;
           buffer = replicate (44 + length bytes) 0
       in statements
            [writeString 0 (js ''RIFF''),
             \<lambda>view. setUint32 view 4 (36 + int (length bytes)),
             writeString 8 (js ''WAVE''),
             writeString 12 (js ''fmt ''),
             \<lambda>view. setUint32 view 16 16,
             \<lambda>view. setUint16 view 20 1,
             \<lambda>view. setUint16 view 22 1,
             \<lambda>view. setUint32 view 24 sampleRate,
             \<lambda>view. setUint32 view 28 (sampleRate * 2),
             \<lambda>view. setUint16 view 32 2,
             \<lambda>view. setUint16 view 34 16,
             writeString 36 (js ''data''),
             \<lambda>view. setUint32 view 40 (int (length bytes)),
             \<lambda>view. store view 44 bytes]
            buffer)"

text \<open>
  \<open>URL.createObjectURL\<close> registers the blob under a URL that no earlier blob has. The
  registry is the list of the blobs registered so far (the source revokes none), and a
  URL is the position of its blob.
\<close>

record blob =
  blob_parts :: "byte list"
  blob_type :: jsstring

type_synonym url = nat

definition createObjectURL :: "blob \<Rightarrow> blob list \<Rightarrow> url \<times> blob list" where
  "createObjectURL b registry = (length registry, registry @ [b])"

definition deref :: "blob list \<Rightarrow> url \<Rightarrow> blob option" where
  "deref registry u = (if u < length registry then Some (registry ! u) else None)"

definition createWavUrl :: "jsstring \<Rightarrow> int \<Rightarrow> blob list \<Rightarrow> failure + url \<times> blob list" where
  "createWavUrl base64 sampleRate registry =
     (case createWav base64 sampleRate of
        Inl f \<Rightarrow> Inl f
      | Inr buffer \<Rightarrow>
          Inr (createObjectURL \<lparr>blob_parts = buffer, blob_type = js ''audio/wav''\<rparr> registry))"

text \<open>Reading a little-endian field of \<open>n\<close> bytes at an offset of a container.\<close>

definition le_value :: "byte list \<Rightarrow> nat" where
  "le_value bs = foldr (\<lambda>b acc. unat b + 256 * acc) bs 0"

definition field :: "byte list \<Rightarrow> nat \<Rightarrow> nat \<Rightarrow> nat" where
  "field wav byteOffset n = le_value (take n (drop byteOffset wav))"

section \<open>The client (App.tsx)\<close>

subsection \<open>Strings\<close>

text \<open>\<open>trim\<close> removes the white space and line terminators of ECMAScript at both ends.\<close>

definition is_js_whitespace :: "16 word \<Rightarrow> bool" where
  "is_js_whitespace c =
     (c = 9 \<or> c = 10 \<or> c = 11 \<or> c = 12 \<or> c = 13 \<or> c = 32 \<or> c = 160 \<or> c = 5760
      \<or> (8192 \<le> c \<and> c \<le> 8202) \<or> c = 8232 \<or> c = 8233 \<or> c = 8239 \<or> c = 8287
      \<or> c = 12288 \<or> c = 65279)"

definition trim :: "jsstring \<Rightarrow> jsstring" where
  "trim s = rev (dropWhile is_js_whitespace (rev (dropWhile is_js_whitespace s)))"

fun js_includes :: "jsstring \<Rightarrow> jsstring \<Rightarrow> bool" where
  "js_includes [] sub = (sub = [])"
| "js_includes (c # cs) sub = (take (length sub) (c # cs) = sub \<or> js_includes cs sub)"

text \<open>A value in a template literal: decimal digits (for the integers below \<open>10 ^ 21\<close>
  in magnitude, where no exponent is written), \<open>Infinity\<close>, \<open>-Infinity\<close>, \<open>NaN\<close>, \<open>null\<close>.\<close>

function show_nat :: "nat \<Rightarrow> jsstring" where
  "show_nat n = (if n < 10 then [48 + of_nat n] else show_nat (n div 10) @ [48 + of_nat (n mod 10)])"
  by pat_completeness auto
termination
  by (relation "measure id") auto

declare show_nat.simps [simp del]

fun show_jsval :: "jsval \<Rightarrow> jsstring" where
  "show_jsval (Num c) = (if c < 0 then js ''-'' @ show_nat (nat (- c)) else show_nat (nat c))"
| "show_jsval Infinity = js ''Infinity''"
| "show_jsval NegInfinity = js ''-Infinity''"
| "show_jsval NaN = js ''NaN''"
| "show_jsval Null = js ''null''"

subsection \<open>State\<close>

datatype mode = tts | voice_changer | dubbing

record voice =
  voice_id :: jsstring
  voice_name :: jsstring

record js_file =
  file_name :: jsstring
  file_size :: nat
  file_type :: jsstring

text \<open>\<open>base64\<close> is what \<open>split(',')[1]\<close> gave: absent when the data URL has no comma.\<close>

record uploaded =
  up_file :: js_file
  base64 :: "jsstring option"
  mimeType :: jsstring

record HistoryItem =
  item_id :: jsstring
  item_text :: jsstring
  item_voice :: jsstring
  item_audioUrl :: url
  item_timestamp :: nat

text \<open>A thrown error object, with its \<open>name\<close> and its \<open>message\<close> (which may be absent).\<close>

datatype exn = Exn (name: jsstring) (message: "jsstring option")

text \<open>
  What the code reads of a provider response: \<open>textResponse.text\<close>, and the inline audio
  data \<open>response.candidates?.[0]?.content?.parts?.[0]?.inlineData?.data\<close>, each absent
  or a string. A provider call resolves with a response or rejects with an error.
\<close>

record response =
  resp_text :: "jsstring option"
  resp_audio :: "jsstring option"

datatype outcome = Resolved response | Rejected exn

text \<open>
  The network calls the client sends: the request for the login URL, a provider call
  (model, content parts, voice when the response is to be audio), and the deduct call
  with its amount.
\<close>

datatype part = InlineData "jsstring option" jsstring | TextPart jsstring

datatype call =
    AuthUrl
  | GenerateContent jsstring "part list" "jsstring option"
  | Deduct nat

text \<open>
  An invocation of \<open>generateSpeech\<close> that has reached an \<open>await\<close>, with what its
  closure holds (the \<open>user\<close> and the \<open>selectedVoice\<close> of the render that started it):
  \<open>Composing\<close> awaits the transcription or translation call; \<open>InFlight\<close> awaits the race
  of the synthesis call, for the text \<open>processingText\<close>, against the abort signal of its
  controller; \<open>Returned\<close> awaits nothing any more.
\<close>

datatype invocation =
    Composing account voice
  | InFlight account voice jsstring nat
  | Returned

text \<open>
  The state of the component (\<open>textInput\<close> is the state \<open>text\<close>), the reference to the
  abort controller, and around them what the code acts on: the invocations, the calls
  sent so far, the blob registry and the number of controllers created. State that only
  the presentation reads is left out.
\<close>

record app =
  textInput :: jsstring
  selectedVoice :: voice
  isGenerating :: bool
  audioUrl :: "url option"
  history :: "HistoryItem list"
  error :: "jsstring option"
  showMonetization :: bool
  mode :: mode
  uploadedAudio :: "uploaded option"
  targetLanguage :: jsstring
  loadingStatus :: "jsstring option"
  user :: "account option"
  abortControllerRef :: "nat option"
  invocations :: "invocation list"
  calls :: "call list"
  blobs :: "blob list"
  controllers :: nat

text \<open>
  What the platform supplies to a continuation: the text of \<open>Math.random().toString(36)\<close>,
  the time \<open>Date.now()\<close>, and the error object it throws for a failure of the encoder.
\<close>

record env =
  random36 :: jsstring
  now :: nat
  thrown :: "failure \<Rightarrow> exn"

definition MAX_CHARS :: nat where
  "MAX_CHARS = 20000"

text \<open>The state after the first render: the defaults of the \<open>useState\<close> calls.\<close>

definition initial :: app where
  "initial =
     \<lparr>textInput = [], selectedVoice = \<lparr>voice_id = js ''Puck'', voice_name = js ''VoxAI Frank (Friend Style)''\<rparr>,
      isGenerating = False, audioUrl = None, history = [], error = None,
      showMonetization = False, mode = tts, uploadedAudio = None,
      targetLanguage = js ''Hindi'', loadingStatus = None, user = None,
      abortControllerRef = None, invocations = [], calls = [], blobs = [], controllers = 0\<rparr>"

subsection \<open>Session, mode and upload\<close>

text \<open>
  The session fetch on load: a response that is not \<open>ok\<close> gives \<open>setUser(null)\<close>, a
  body without \<open>error\<close> gives \<open>setUser(data)\<close>.
\<close>

definition session_loaded :: "http_response \<Rightarrow> app \<Rightarrow> app" where
  "session_loaded res s =
     (case res of
        Status200 data \<Rightarrow> s\<lparr>user := Some data\<rparr>
      | Status401 e \<Rightarrow> s\<lparr>user := None\<rparr>)"

definition handleLogin :: "app \<Rightarrow> app" where
  "handleLogin s = s\<lparr>calls := calls s @ [AuthUrl]\<rparr>"

text \<open>The mode buttons: \<open>onClick={() => setMode(m)}\<close>.\<close>

definition setMode :: "mode \<Rightarrow> app \<Rightarrow> app" where
  "setMode m s = s\<lparr>mode := m\<rparr>"


definition split_comma_1 :: "jsstring \<Rightarrow> jsstring option" where
  "split_comma_1 r =
     (let rest = dropWhile (\<lambda>c. c \<noteq> 44) r
      in if rest = [] then None else Some (takeWhile (\<lambda>c. c \<noteq> 44) (tl rest)))"

definition onloadend :: "js_file \<Rightarrow> jsstring \<Rightarrow> app \<Rightarrow> app" where
  "onloadend f result s =
     s\<lparr>uploadedAudio := Some \<lparr>up_file = f, base64 = split_comma_1 result, mimeType = file_type f\<rparr>\<rparr>"

subsection \<open>generateSpeech\<close>

text \<open>
  The checks between composition and the synthesis call, and the call itself, up to the
  \<open>await\<close> of the race. The result is the state and what the invocation awaits then.
\<close>

definition validate_and_send :: "account \<Rightarrow> voice \<Rightarrow> jsstring \<Rightarrow> app \<Rightarrow> app \<times> invocation" where
  "validate_and_send u v processingText s =
     (if trim processingText = [] then
        (s\<lparr>error := Some (js ''Text is empty.''), isGenerating := False, loadingStatus := None\<rparr>,
         Returned)
      else if length processingText > MAX_CHARS then
        (s\<lparr>error := Some (js ''Text exceeds the '' @ show_nat MAX_CHARS @ js '' character limit.''),
           isGenerating := False, loadingStatus := None\<rparr>,
         Returned)
      else if credits u \<noteq> Infinity \<and> js_less (credits u) (int (length processingText)) then
        (s\<lparr>error := Some (js ''Insufficient credits. You need ''
                           @ show_nat (length processingText) @ js '' credits but have ''
                           @ show_jsval (credits u) @ js ''. Please upgrade to Premium.''),
           showMonetization := True, isGenerating := False, loadingStatus := None\<rparr>,
         Returned)
      else
        (s\<lparr>isGenerating := True, loadingStatus := Some (js ''Generating AI voice...''),
           error := None, abortControllerRef := Some (controllers s),
           controllers := Suc (controllers s),
           calls := calls s @ [GenerateContent (js ''gemini-2.5-flash-preview-tts'')
                                 [TextPart processingText] (Some (voice_id v))]\<rparr>,
         InFlight u v processingText (controllers s)))"

text \<open>\<open>generateSpeech\<close> from the click to its first \<open>await\<close> or its return.\<close>

definition generateSpeech :: "app \<Rightarrow> app" where
  "generateSpeech s =
     (case user s of
        None \<Rightarrow> handleLogin s
      | Some u \<Rightarrow>
          if mode s \<noteq> tts then
            (case uploadedAudio s of
               None \<Rightarrow> s\<lparr>error := Some (js ''Please upload an audio file first.'')\<rparr>
             | Some a \<Rightarrow>
                 let prompt =
                   (if mode s = dubbing
                    then js ''Translate the speech in this audio to '' @ targetLanguage s
                         @ js ''. Return ONLY the translated text, nothing else.''
                    else js ''Transcribe the speech in this audio exactly. Return ONLY the transcription, nothing else.'')
                 in s\<lparr>isGenerating := True,
                      loadingStatus := Some (if mode s = dubbing then js ''Translating audio...''
                                             else js ''Analyzing audio...''),
                      error := None,
                      calls := calls s @ [GenerateContent (js ''gemini-2.5-flash'')
                                            [InlineData (base64 a) (mimeType a), TextPart prompt] None],
                      invocations := invocations s @ [Composing u (selectedVoice s)]\<rparr>)
          else
            (case validate_and_send u (selectedVoice s) (textInput s) s of
               (s', iv) \<Rightarrow> s'\<lparr>invocations := invocations s' @ [iv]\<rparr>))"

text \<open>The \<open>catch\<close> block of the composition stage.\<close>

definition compose_failed :: "nat \<Rightarrow> exn \<Rightarrow> app \<Rightarrow> app" where
  "compose_failed k err s =
     s\<lparr>error := Some (js ''Failed to process audio file. ''
                      @ (case message err of None \<Rightarrow> js ''undefined'' | Some m \<Rightarrow> m)),
       isGenerating := False, loadingStatus := None,
       invocations := (invocations s)[k := Returned]\<rparr>"

text \<open>The continuation of invocation \<open>k\<close> when its transcription or translation call settles.\<close>

definition text_settled :: "nat \<Rightarrow> account \<Rightarrow> voice \<Rightarrow> outcome \<Rightarrow> app \<Rightarrow> app" where
  "text_settled k u v out s =
     (case out of
        Rejected err \<Rightarrow> compose_failed k err s
      | Resolved textResponse \<Rightarrow>
          let processingText = (case resp_text textResponse of None \<Rightarrow> [] | Some t \<Rightarrow> t)
          in if trim processingText = []
             then compose_failed k (Exn (js ''Error'') (Some (js ''Could not extract speech from audio.''))) s
             else (case validate_and_send u v processingText (s\<lparr>textInput := processingText\<rparr>) of
                     (s', iv) \<Rightarrow> s'\<lparr>invocations := (invocations s')[k := iv]\<rparr>))"

text \<open>The \<open>catch\<close> and \<open>finally\<close> blocks around the synthesis call.\<close>

definition abort_recognised :: "exn \<Rightarrow> bool" where
  "abort_recognised err =
     (name err = js ''AbortError''
      \<or> (case message err of None \<Rightarrow> False | Some m \<Rightarrow> js_includes m (js ''abort'')))"

definition quota_exhausted :: "exn \<Rightarrow> bool" where
  "quota_exhausted err =
     (case message err of
        None \<Rightarrow> False
      | Some m \<Rightarrow> m \<noteq> [] \<and> (js_includes m (js ''429'') \<or> js_includes m (js ''RESOURCE_EXHAUSTED'')
                              \<or> js_includes m (js ''quota'')))"

definition catch_block :: "exn \<Rightarrow> app \<Rightarrow> app" where
  "catch_block err s =
     (if abort_recognised err then s
      else if quota_exhausted err then
        s\<lparr>error := Some (js ''API Quota Exceeded (429): Your API key has reached its limit. Please wait a minute or check your Google Cloud billing.'')\<rparr>
      else
        s\<lparr>error := Some (case message err of
                          None \<Rightarrow> js ''Connection failed. Please check your internet or API key.''
                        | Some m \<Rightarrow> if m = []
                                   then js ''Connection failed. Please check your internet or API key.''
                                   else m)\<rparr>)"

definition finally_block :: "app \<Rightarrow> app" where
  "finally_block s = s\<lparr>isGenerating := False, loadingStatus := None, abortControllerRef := None\<rparr>"

definition race_rejected :: "exn \<Rightarrow> app \<Rightarrow> app" where
  "race_rejected err s = finally_block (catch_block err s)"

text \<open>The \<open>try\<close> block after the race, when the synthesis call resolved first.\<close>

definition race_resolved :: "env \<Rightarrow> account \<Rightarrow> voice \<Rightarrow> jsstring \<Rightarrow> response \<Rightarrow> app \<Rightarrow> app" where
  "race_resolved e u v processingText resp s =
     (case resp_audio resp of
        None \<Rightarrow>
          race_rejected (Exn (js ''Error'') (Some (js ''The AI model returned an empty response. Please try again with shorter text or a different voice.''))) s
      | Some base64Audio \<Rightarrow>
          if base64Audio = [] then
            race_rejected (Exn (js ''Error'') (Some (js ''The AI model returned an empty response. Please try again with shorter text or a different voice.''))) s
          else
            let s1 = (if credits u \<noteq> Infinity
                      then s\<lparr>calls := calls s @ [Deduct (length processingText)]\<rparr> else s)
            in (case createWavUrl base64Audio 24000 (blobs s1) of
                  Inl f \<Rightarrow> race_rejected (thrown e f) s1
                | Inr (url, registry) \<Rightarrow>
                    let newItem =
                      \<lparr>item_id = take 9 (drop 2 (random36 e)),
                       item_text = (if length processingText > 80
                                    then take 80 processingText @ js ''...''
                                    else processingText),
                       item_voice = voice_name v,
                       item_audioUrl = url,
                       item_timestamp = now e\<rparr>
                    in finally_block
                         (s1\<lparr>blobs := registry, audioUrl := Some url,
                             history := newItem # history s1\<rparr>)))"

text \<open>
  The provider call of invocation \<open>k\<close> settles. An invocation in flight takes the
  outcome, since its race has not been settled by the abort signal; for an invocation
  that has returned, the race was settled before and the outcome reaches no handler.
\<close>

definition settle :: "nat \<Rightarrow> outcome \<Rightarrow> env \<Rightarrow> app \<Rightarrow> app" where
  "settle k out e s =
     (if k < length (invocations s) then
        (case invocations s ! k of
           Composing u v \<Rightarrow> text_settled k u v out s
         | InFlight u v processingText c \<Rightarrow>
             (case out of
                Resolved resp \<Rightarrow>
                  race_resolved e u v processingText resp
                    (s\<lparr>invocations := (invocations s)[k := Returned]\<rparr>)
              | Rejected err \<Rightarrow>
                  race_rejected err (s\<lparr>invocations := (invocations s)[k := Returned]\<rparr>))
         | Returned \<Rightarrow> s)
      else s)"

text \<open>
  \<open>handleCancel\<close>. \<open>abort()\<close> runs the listeners of the controller, each of which rejects
  its race with \<open>new Error('AbortError')\<close>; the handler then clears the reference and the
  progress state, and the rejected invocations continue in their \<open>catch\<close> blocks.
\<close>

definition aborted_by :: "nat \<Rightarrow> invocation \<Rightarrow> bool" where
  "aborted_by c iv = (case iv of InFlight u v t c' \<Rightarrow> c' = c | _ \<Rightarrow> False)"

definition handleCancel :: "app \<Rightarrow> app" where
  "handleCancel s =
     (case abortControllerRef s of
        None \<Rightarrow> s
      | Some c \<Rightarrow>
          fold (\<lambda>iv. race_rejected (Exn (js ''Error'') (Some (js ''AbortError''))))
            (filter (aborted_by c) (invocations s))
            (s\<lparr>abortControllerRef := None, isGenerating := False, loadingStatus := None,
               invocations := map (\<lambda>iv. if aborted_by c iv then Returned else iv)
                                (invocations s)\<rparr>))"

subsection \<open>Example inputs\<close>

text \<open>
  An account as the service creates it, the session of that account with a short text
  typed, the same session in dubbing mode with a four-byte clip read from a file, and
  what the platform supplies to a continuation.
\<close>

definition example_account :: account where
  "example_account = \<lparr>email = js ''alice@example.com'', credits = Num 20000, isPremium = False\<rparr>"

definition example_session :: app where
  "example_session = session_loaded (Status200 example_account) (initial\<lparr>textInput := js ''Hello world''\<rparr>)"

definition example_file :: js_file where
  "example_file = \<lparr>file_name = js ''clip.wav'', file_size = 4, file_type = js ''audio/wav''\<rparr>"

definition example_dubbing :: app where
  "example_dubbing =
     onloadend example_file (js ''data:audio/wav;base64,AAECAw=='') (setMode dubbing example_session)"

definition example_env :: env where
  "example_env =
     \<lparr>random36 = js ''0.4fzyo82mvyr'', now = 1700000000000,
      thrown = (\<lambda>f. Exn (js ''InvalidCharacterError'')
                       (Some (js ''The string to be decoded is not correctly encoded.'')))\<rparr>"

section \<open>Properties of the credit service\<close>

subsection \<open>Integers that are doubles\<close>

lemma bit_length_le: "n < 2 ^ k \<Longrightarrow> bit_length n \<le> k"
proof (induction n arbitrary: k rule: bit_length.induct)
  case (1 n)
  show ?case
  proof (cases "n = 0")
    case True
    then show ?thesis by (simp add: bit_length.simps [of 0])
  next
    case False
    with "1.prems" obtain j where k: "k = Suc j"
      by (cases k) auto
    have "n div 2 < 2 ^ j"
      using "1.prems" k by auto
    from "1.IH" [OF False this] show ?thesis
      using False k by (simp add: bit_length.simps [of n])
  qed
qed

lemma bit_length_eq: "2 ^ k \<le> n \<Longrightarrow> n < 2 ^ Suc k \<Longrightarrow> bit_length n = Suc k"
proof (induction k arbitrary: n)
  case 0
  then have "n = Suc 0" by simp
  then show ?case
    by (simp add: bit_length.simps [of "Suc 0"] bit_length.simps [of 0])
next
  case (Suc k)
  have "2 ^ k \<le> n div 2" "n div 2 < 2 ^ Suc k"
    using Suc.prems by auto
  then have "bit_length (n div 2) = Suc k"
    by (rule Suc.IH)
  moreover have "n \<noteq> 0"
    using Suc.prems by auto
  ultimately show ?case
    by (simp add: bit_length.simps [of n])
qed

lemma round53_multiple:
  assumes "n mod 2 ^ (bit_length n - 53) = 0"
  shows "round53 n = n"
proof -
  have "n div 2 ^ (bit_length n - 53) * 2 ^ (bit_length n - 53) = n"
    using assms by (simp add: mod_0_imp_dvd)
  then show ?thesis
    by (simp add: round53_def Let_def assms)
qed

lemma round53_exact:
  assumes "n \<le> 2 ^ 53"
  shows "round53 n = n"
proof (cases "n < 2 ^ 53")
  case True
  then have "bit_length n - 53 = 0"
    using bit_length_le [of n 53] by simp
  then show ?thesis
    by (intro round53_multiple) simp
next
  case False
  with assms have n: "n = 2 ^ 53" by simp
  have "bit_length n = Suc 53"
    unfolding n by (rule bit_length_eq) simp_all
  then have "bit_length n - 53 = 1"
    by simp
  then show ?thesis
    by (intro round53_multiple) (simp add: n)
qed

lemma double_of_int_exact:
  assumes "\<bar>x\<bar> \<le> 2 ^ 53"
  shows "double_of_int x = Num x"
proof -
  have n: "nat \<bar>x\<bar> \<le> 2 ^ 53"
    using assms by (simp add: nat_le_iff)
  have r: "round53 (nat \<bar>x\<bar>) = nat \<bar>x\<bar>"
    using n by (rule round53_exact)
  have "(2 :: nat) ^ 53 < 2 ^ 1024"
    by (rule power_strict_increasing) simp_all
  with n have "\<not> 2 ^ 1024 \<le> nat \<bar>x\<bar>"
    by linarith
  moreover have "sgn x * int (nat \<bar>x\<bar>) = x"
    by (simp add: mult_sgn_abs)
  ultimately show ?thesis
    by (simp only: double_of_int_def r if_False)
qed

lemma round53_even_54_bits:
  assumes "2 ^ 53 \<le> n" and "n < 2 ^ 54" and "even n"
  shows "round53 n = n"
proof -
  have "bit_length n = Suc 53"
    using assms(1,2) by (intro bit_length_eq) simp_all
  then have "bit_length n - 53 = 1"
    by simp
  then show ?thesis
    using assms(3) by (intro round53_multiple) simp
qed

lemma round53_tie_example: "round53 9007199254760993 = 9007199254760992"
proof -
  have "bit_length 9007199254760993 = Suc 53"
    by (rule bit_length_eq) simp_all
  then have e: "bit_length 9007199254760993 - 53 = 1"
    by simp
  show ?thesis
    unfolding round53_def e Let_def by simp
qed

lemma double_of_int_tie_example: "double_of_int 9007199254760993 = Num 9007199254760992"
proof -
  have "\<not> (2 :: nat) ^ 1024 \<le> 9007199254760992"
    by simp
  then show ?thesis
    unfolding double_of_int_def by (simp add: round53_tie_example)
qed

lemma double_of_int_even_example: "double_of_int 9007199254760992 = Num 9007199254760992"
proof -
  have "round53 9007199254760992 = 9007199254760992"
    by (rule round53_even_54_bits) simp_all
  moreover have "\<not> (2 :: nat) ^ 1024 \<le> 9007199254760992"
    by simp
  ultimately show ?thesis
    unfolding double_of_int_def by simp
qed

lemma js_minus_exact:
  assumes "\<bar>a\<bar> \<le> 2 ^ 53" and "\<bar>b - a\<bar> \<le> 2 ^ 53"
  shows "js_minus (Num b) (double_of_int a) = Num (b - a)"
proof -
  have "double_of_int a = Num a"
    using assms(1) by (rule double_of_int_exact)
  moreover have "double_of_int (b - a) = Num (b - a)"
    using assms(2) by (rule double_of_int_exact)
  ultimately show ?thesis
    by (simp add: js_minus_def)
qed

subsection \<open>The handlers\<close>

lemma js_nonempty: "js (c # cs) \<noteq> []"
  by (simp add: js_def)

lemma api_user_deduct_number:
  assumes "db e = Some u" and "e \<noteq> []" and "credits u = Num b"
  shows "api_user_deduct (Some e) a db =
           (Status200 (to_json (u\<lparr>credits := js_minus (Num b) (double_of_int a)\<rparr>)),
            db(e \<mapsto> u\<lparr>credits := js_minus (Num b) (double_of_int a)\<rparr>))"
  using assms by (simp add: api_user_deduct_def Let_def)

lemma api_user_deduct_finite:
  assumes "db e = Some u" and "e \<noteq> []" and "credits u = Num b"
    and "\<bar>a\<bar> \<le> 2 ^ 53" and "\<bar>b - a\<bar> \<le> 2 ^ 53"
  shows "api_user_deduct (Some e) a db =
           (Status200 (u\<lparr>credits := Num (b - a)\<rparr>), db(e \<mapsto> u\<lparr>credits := Num (b - a)\<rparr>))"
proof -
  have "js_minus (Num b) (double_of_int a) = Num (b - a)"
    using assms(4,5) by (rule js_minus_exact)
  then show ?thesis
    using api_user_deduct_number [of db e u b a] assms(1-3) by (simp add: to_json_def)
qed

lemma api_user_deduct_unbounded:
  assumes "db e = Some u" and "e \<noteq> []" and "credits u = Infinity"
  shows "snd (api_user_deduct (Some e) a db) = db(e \<mapsto> u)"
  using assms by (simp add: api_user_deduct_def Let_def)

lemma api_user_fresh:
  assumes "e \<noteq> []" and "e \<notin> set SPECIAL_EMAILS"
  shows "snd (api_user (Some e) Map.empty) =
           [e \<mapsto> \<lparr>email = e, credits = Num 20000, isPremium = False\<rparr>]"
  using assms by (simp add: api_user_def Let_def)

lemma alice_not_special: "js ''alice@example.com'' \<notin> set SPECIAL_EMAILS"
  by (simp add: SPECIAL_EMAILS_def js_def)

lemma alice_nonempty: "js ''alice@example.com'' \<noteq> []"
  by (simp add: js_def)

text \<open>
  C1, as stated, fails: the account the service creates for \<open>alice@example.com\<close> holds
  20000 credits, and a deduct of 20001 leaves the balance \<open>-1\<close>: the handler has no floor
  at zero.
\<close>

theorem deduct_negative_balance:
  "balance (snd (api_user_deduct (Some (js ''alice@example.com'')) 20001
             (snd (api_user (Some (js ''alice@example.com'')) Map.empty))))
     (js ''alice@example.com'') = Some (Num (- 1))"
proof -
  have "api_user_deduct (Some (js ''alice@example.com'')) 20001
          [js ''alice@example.com'' \<mapsto>
             \<lparr>email = js ''alice@example.com'', credits = Num 20000, isPremium = False\<rparr>]
        = (Status200 \<lparr>email = js ''alice@example.com'', credits = Num (20000 - 20001),
                       isPremium = False\<rparr>,
           [js ''alice@example.com'' \<mapsto>
              \<lparr>email = js ''alice@example.com'', credits = Num (20000 - 20001),
                isPremium = False\<rparr>])"
    using api_user_deduct_finite
      [of "[js ''alice@example.com'' \<mapsto>
             \<lparr>email = js ''alice@example.com'', credits = Num 20000, isPremium = False\<rparr>]"
          "js ''alice@example.com''"
          "\<lparr>email = js ''alice@example.com'', credits = Num 20000, isPremium = False\<rparr>"
          20000 20001]
      alice_nonempty
    by simp
  then show ?thesis
    by (simp add: api_user_fresh [OF alice_nonempty alice_not_special] balance_def)
qed

text \<open>
  C1, amended: a deduct of an integer amount \<open>a\<close> on an existing account whose balance
  is an integer \<open>b\<close>, where \<open>a\<close>, \<open>b\<close> and \<open>b - a\<close> are at most \<open>2 ^ 53\<close> in magnitude
  (so that the doubles of the code hold them exactly), leaves the balance \<open>b - a\<close>, which
  is at least zero exactly when \<open>a\<close> does not exceed \<open>b\<close>: there is no floor at zero. A
  deduct on an account with the unbounded balance leaves the balance as it is.
\<close>

theorem deduct_balance:
  assumes "db e = Some u" and "e \<noteq> []"
  shows "(credits u = Num b \<and> \<bar>a\<bar> \<le> 2 ^ 53 \<and> \<bar>b\<bar> \<le> 2 ^ 53 \<and> \<bar>b - a\<bar> \<le> 2 ^ 53 \<longrightarrow>
            balance (snd (api_user_deduct (Some e) a db)) e = Some (Num (b - a))
            \<and> (0 \<le> b - a \<longleftrightarrow> a \<le> b))
       \<and> (credits u = Infinity \<longrightarrow>
            balance (snd (api_user_deduct (Some e) a db)) e = Some Infinity)"
proof (intro conjI impI)
  assume h: "credits u = Num b \<and> \<bar>a\<bar> \<le> 2 ^ 53 \<and> \<bar>b\<bar> \<le> 2 ^ 53 \<and> \<bar>b - a\<bar> \<le> 2 ^ 53"
  then have "api_user_deduct (Some e) a db =
               (Status200 (u\<lparr>credits := Num (b - a)\<rparr>), db(e \<mapsto> u\<lparr>credits := Num (b - a)\<rparr>))"
    using assms by (intro api_user_deduct_finite) simp_all
  then show "balance (snd (api_user_deduct (Some e) a db)) e = Some (Num (b - a))"
    by (simp add: balance_def)
next
  show "0 \<le> b - a \<longleftrightarrow> a \<le> b" by simp
next
  assume "credits u = Infinity"
  then show "balance (snd (api_user_deduct (Some e) a db)) e = Some Infinity"
    using assms by (simp add: api_user_deduct_unbounded balance_def)
qed

theorem deduct_balance_witness:
  "balance (snd (api_user_deduct (Some (js ''a'')) 11
      [js ''a'' \<mapsto> \<lparr>email = js ''a'', credits = Num 20000, isPremium = False\<rparr>]))
      (js ''a'') = Some (Num 19989)
   \<and> balance (snd (api_user_deduct (Some (js ''r'')) 11
      [js ''r'' \<mapsto> \<lparr>email = js ''r'', credits = Infinity, isPremium = True\<rparr>]))
      (js ''r'') = Some Infinity"
  using deduct_balance [of "[js ''a'' \<mapsto> \<lparr>email = js ''a'', credits = Num 20000, isPremium = False\<rparr>]"
      "js ''a''" "\<lparr>email = js ''a'', credits = Num 20000, isPremium = False\<rparr>" 20000 11]
    deduct_balance [of "[js ''r'' \<mapsto> \<lparr>email = js ''r'', credits = Infinity, isPremium = True\<rparr>]"
      "js ''r''" "\<lparr>email = js ''r'', credits = Infinity, isPremium = True\<rparr>" 0 11]
  by (simp add: js_def)

text \<open>
  C10, as stated for every integer amount, fails: the handler subtracts doubles. The
  account of \<open>alice@example.com\<close> holds \<open>2 ^ 53 + 20000\<close> after a deduct of \<open>- 2 ^ 53\<close>,
  and a further deduct of \<open>-1\<close> leaves that balance as it is: the new balance is not
  \<open>b - a\<close>, and the negative amount has not increased it.
\<close>

theorem deduct_rounds:
  "balance (snd (api_user_deduct (Some (js ''alice@example.com'')) (- 9007199254740992)
             (snd (api_user (Some (js ''alice@example.com'')) Map.empty))))
     (js ''alice@example.com'') = Some (Num 9007199254760992)
   \<and> balance (snd (api_user_deduct (Some (js ''alice@example.com'')) (- 1)
        (snd (api_user_deduct (Some (js ''alice@example.com'')) (- 9007199254740992)
               (snd (api_user (Some (js ''alice@example.com'')) Map.empty))))))
     (js ''alice@example.com'') = Some (Num 9007199254760992)"
proof -
  let ?e = "js ''alice@example.com''"
  let ?u = "\<lparr>email = ?e, credits = Num 20000, isPremium = False\<rparr>"
  let ?v = "\<lparr>email = ?e, credits = Num 9007199254760992, isPremium = False\<rparr>"
  have p: "double_of_int (- 9007199254740992) = Num (- 9007199254740992)"
    by (rule double_of_int_exact) simp
  have q: "double_of_int (- 1) = Num (- 1)"
    by (rule double_of_int_exact) simp
  have m1: "js_minus (Num 20000) (double_of_int (- 9007199254740992)) = Num 9007199254760992"
    by (simp add: js_minus_def p double_of_int_even_example)
  have m2: "js_minus (Num 9007199254760992) (double_of_int (- 1)) = Num 9007199254760992"
    by (simp add: js_minus_def q double_of_int_tie_example)
  have d1: "snd (api_user_deduct (Some ?e) (- 9007199254740992) [?e \<mapsto> ?u]) = [?e \<mapsto> ?v]"
    using api_user_deduct_number [of "[?e \<mapsto> ?u]" ?e ?u 20000 "- 9007199254740992"]
      alice_nonempty
    by (simp add: m1)
  have d2: "snd (api_user_deduct (Some ?e) (- 1) [?e \<mapsto> ?v]) = [?e \<mapsto> ?v]"
    using api_user_deduct_number [of "[?e \<mapsto> ?v]" ?e ?v 9007199254760992 "- 1"]
      alice_nonempty
    by (simp add: m2)
  show ?thesis
    by (simp add: api_user_fresh [OF alice_nonempty alice_not_special] d1 d2 balance_def)
qed

text \<open>
  C10, amended: the deduct handler makes no test on the sign or the size of the amount.
  For an existing account whose balance is an integer \<open>b\<close> and every integer amount \<open>a\<close>,
  negative ones included, such that \<open>a\<close>, \<open>b\<close> and \<open>b - a\<close> are at most \<open>2 ^ 53\<close> in
  magnitude, the new balance is exactly \<open>b - a\<close>, in the table and in the response; a
  negative amount makes the balance strictly larger.
\<close>

theorem deduct_unvalidated:
  assumes "db e = Some u" and "e \<noteq> []" and "credits u = Num b"
    and "\<bar>a\<bar> \<le> 2 ^ 53" and "\<bar>b\<bar> \<le> 2 ^ 53" and "\<bar>b - a\<bar> \<le> 2 ^ 53"
  shows "api_user_deduct (Some e) a db =
           (Status200 (u\<lparr>credits := Num (b - a)\<rparr>), db(e \<mapsto> u\<lparr>credits := Num (b - a)\<rparr>))
         \<and> (a < 0 \<longrightarrow> b < b - a)"
  using api_user_deduct_finite [of db e u b a] assms by simp

theorem deduct_unvalidated_witness:
  "api_user_deduct (Some (js ''a'')) (- 5)
      [js ''a'' \<mapsto> \<lparr>email = js ''a'', credits = Num 20000, isPremium = False\<rparr>]
    = (Status200 \<lparr>email = js ''a'', credits = Num 20005, isPremium = False\<rparr>,
       [js ''a'' \<mapsto> \<lparr>email = js ''a'', credits = Num 20005, isPremium = False\<rparr>])"
  using deduct_unvalidated [of "[js ''a'' \<mapsto> \<lparr>email = js ''a'', credits = Num 20000, isPremium = False\<rparr>]"
      "js ''a''" "\<lparr>email = js ''a'', credits = Num 20000, isPremium = False\<rparr>" 20000 "- 5"]
  by (simp add: js_def)

section \<open>Properties of the encoder\<close>

lemma length_le_bytes: "length (le_bytes n v) = n"
  by (simp add: le_bytes_def)

lemma length_js: "length (js s) = length s"
  by (simp add: js_def)

lemma unat_byte_of_int: "unat (word_of_int x :: byte) = nat (x mod 256)"
  by (simp add: unat_eq_nat_uint uint_word_of_int)

lemma le_bytes_4:
  "le_bytes 4 v = [word_of_int v, word_of_int (v div 256), word_of_int (v div 65536),
                   word_of_int (v div 16777216)]"
  by (simp add: le_bytes_def upt_rec numeral_eq_Suc)

lemma le_bytes_2: "le_bytes 2 v = [word_of_int v, word_of_int (v div 256)]"
  by (simp add: le_bytes_def upt_rec numeral_eq_Suc)

lemma int_bytes2:
  assumes "0 \<le> v" and "v < 65536"
  shows "v mod 256 + 256 * (v div 256 mod 256) = (v :: int)"
proof -
  have "v div 256 \<le> 65535 div 256"
    using assms by (intro zdiv_mono1) simp_all
  then have "0 \<le> v div 256" "v div 256 < 256"
    using assms by simp_all
  then have "v div 256 mod 256 = v div 256"
    by simp
  then show ?thesis
    by simp
qed

lemma int_bytes4:
  assumes "0 \<le> v" and "v < 4294967296"
  shows "v mod 256 + 256 * (v div 256 mod 256
           + 256 * (v div 65536 mod 256 + 256 * (v div 16777216 mod 256))) = (v :: int)"
proof -
  define q1 where "q1 = v div 256"
  define q2 where "q2 = q1 div 256"
  define q3 where "q3 = q2 div 256"
  have e2: "v div 65536 = q2"
    using zdiv_zmult2_eq [of 256 v 256] by (simp add: q1_def q2_def)
  have e3: "v div 16777216 = q3"
    using zdiv_zmult2_eq [of 256 v 65536] e2 by (simp add: q3_def)
  have "v div 16777216 \<le> 4294967295 div 16777216"
    using assms by (intro zdiv_mono1) simp_all
  then have "0 \<le> q3" "q3 < 256"
    using assms by (simp_all flip: e3)
  then have m3: "q3 mod 256 = q3"
    by simp
  have s1: "v mod 256 + 256 * q1 = v"
    by (simp add: q1_def)
  have s2: "q1 mod 256 + 256 * q2 = q1"
    by (simp add: q2_def)
  have s3: "q2 mod 256 + 256 * q3 = q2"
    by (simp add: q3_def)
  show ?thesis
    unfolding e2 e3 m3 q1_def [symmetric] by (simp only: s3 s2 s1)
qed

lemma le_value_le_bytes4:
  assumes "0 \<le> v" and "v < 2 ^ 32"
  shows "le_value (le_bytes 4 v) = nat v"
proof -
  have "int (le_value (le_bytes 4 v)) =
          v mod 256 + 256 * (v div 256 mod 256
            + 256 * (v div 65536 mod 256 + 256 * (v div 16777216 mod 256)))"
    by (simp add: le_bytes_4 le_value_def unat_byte_of_int)
  also have "\<dots> = v"
    using assms by (intro int_bytes4) simp_all
  finally show ?thesis by simp
qed

lemma le_value_le_bytes2:
  assumes "0 \<le> v" and "v < 2 ^ 16"
  shows "le_value (le_bytes 2 v) = nat v"
proof -
  have "int (le_value (le_bytes 2 v)) = v mod 256 + 256 * (v div 256 mod 256)"
    by (simp add: le_bytes_2 le_value_def unat_byte_of_int)
  also have "\<dots> = v"
    using assms by (intro int_bytes2) simp_all
  finally show ?thesis by simp
qed

lemma store_append:
  "length old = length bs \<Longrightarrow>
   store (pre @ old @ post) (length pre) bs = Inr (pre @ bs @ post)"
  by (simp add: store_def)

lemma byte_of_uint: "(word_of_int (uint (c :: 16 word)) :: byte) = ucast c"
  by (rule ucast_eq [symmetric])

lemma setUint8_append:
  "setUint8 (pre @ b # post) (length pre) (uint (c :: 16 word)) = Inr (pre @ ucast c # post)"
  using store_append [of "[b]" "[ucast c]" pre post]
  by (simp add: setUint8_def le_bytes_def byte_of_uint)

lemma writeString_append:
  "length old = length s \<Longrightarrow>
   writeString (length pre) s (pre @ old @ post) = Inr (pre @ map ucast s @ post)"
proof (induction s arbitrary: pre old)
  case Nil
  then show ?case by simp
next
  case (Cons c cs)
  then obtain b olds where old: "old = b # olds" and len: "length olds = length cs"
    by (cases old) auto
  have "writeString (length (pre @ [ucast c])) cs ((pre @ [ucast c]) @ olds @ post)
          = Inr ((pre @ [ucast c]) @ map ucast cs @ post)"
    using len by (rule Cons.IH)
  then show ?case
    by (simp add: old setUint8_append)
qed

lemma store_seg:
  "length pre = off \<Longrightarrow> length bs = k \<Longrightarrow>
   store (pre @ replicate k 0 @ post) off bs = Inr ((pre @ bs) @ post)"
  using store_append [of "replicate k 0" bs pre post] by simp

lemma setUint32_seg:
  "length pre = off \<Longrightarrow>
   setUint32 (pre @ replicate 4 0 @ post) off v = Inr ((pre @ le_bytes 4 v) @ post)"
  by (simp add: setUint32_def store_seg length_le_bytes)

lemma setUint16_seg:
  "length pre = off \<Longrightarrow>
   setUint16 (pre @ replicate 2 0 @ post) off v = Inr ((pre @ le_bytes 2 v) @ post)"
  by (simp add: setUint16_def store_seg length_le_bytes)

lemma writeString_seg:
  "length pre = off \<Longrightarrow> length s = k \<Longrightarrow>
   writeString off s (pre @ replicate k 0 @ post) = Inr ((pre @ map ucast s) @ post)"
  using writeString_append [of "replicate k 0" s pre post] by simp

lemma writeString_seg0:
  "length s = k \<Longrightarrow> writeString 0 s (replicate k 0 @ post) = Inr (map ucast s @ post)"
  using writeString_seg [of "[]" 0 s k post] by simp

lemma store_last:
  "length pre = off \<Longrightarrow> length bs = k \<Longrightarrow>
   store (pre @ replicate k 0) off bs = Inr (pre @ bs)"
  using store_append [of "replicate k 0" bs pre "[]"] by simp

lemma buffer_segments:
  "replicate (44 + n) (0 :: byte) =
     replicate 4 0 @ replicate 4 0 @ replicate 4 0 @ replicate 4 0 @ replicate 4 0
     @ replicate 2 0 @ replicate 2 0 @ replicate 4 0 @ replicate 4 0 @ replicate 2 0
     @ replicate 2 0 @ replicate 4 0 @ replicate 4 0 @ replicate n 0"
  by (simp add: replicate_add [symmetric])

lemma createWav_explicit:
  assumes "atob b64 = Inr binaryString"
  shows "createWav b64 r =
           Inr (map ucast (js ''RIFF'') @ le_bytes 4 (36 + int (length binaryString))
                @ map ucast (js ''WAVE'') @ map ucast (js ''fmt '') @ le_bytes 4 16
                @ le_bytes 2 1 @ le_bytes 2 1 @ le_bytes 4 r @ le_bytes 4 (r * 2)
                @ le_bytes 2 2 @ le_bytes 2 16 @ map ucast (js ''data'')
                @ le_bytes 4 (int (length binaryString)) @ map ucast binaryString)"
  unfolding createWav_def Let_def assms and_then.simps buffer_segments
  by (simp add: writeString_seg0 writeString_seg setUint32_seg setUint16_seg store_last
      length_le_bytes length_js del: append_assoc)


lemma field_seg:
  "length pre = off \<Longrightarrow> length seg = n \<Longrightarrow> field (pre @ seg @ post) off n = le_value seg"
  by (simp add: field_def)


text \<open>
  C2, amended: for every base64 input that decodes to \<open>L\<close> bytes with \<open>36 + L < 2 ^ 32\<close>
  and every integer sample rate \<open>r\<close> with \<open>0 \<le> r\<close> and \<open>2 * r < 2 ^ 32\<close>, the encoder
  registers a container of exactly \<open>L + 44\<close> bytes whose header holds, little-endian:
  \<open>36 + L\<close> at bytes 4..7, the format tag 1 at 20..21, the channel count 1 at 22..23,
  \<open>r\<close> at 24..27, \<open>2 * r\<close> at 28..31, the block align 2 at 32..33, 16 bits per sample
  at 34..35 and \<open>L\<close> at 40..43; the decoded bytes follow the header.
\<close>

theorem createWavUrl_container:
  assumes dec: "atob b64 = Inr binaryString"
    and size: "36 + int (length binaryString) < 2 ^ 32"
    and rate: "0 \<le> r" "r * 2 < 2 ^ 32"
  shows "\<exists>wav. createWavUrl b64 r registry =
                 Inr (length registry,
                      registry @ [\<lparr>blob_parts = wav, blob_type = js ''audio/wav''\<rparr>])
          \<and> length wav = length binaryString + 44
          \<and> field wav 4 4 = 36 + length binaryString
          \<and> field wav 20 2 = 1
          \<and> field wav 22 2 = 1
          \<and> int (field wav 24 4) = r
          \<and> int (field wav 28 4) = r * 2
          \<and> field wav 32 2 = 2
          \<and> field wav 34 2 = 16
          \<and> field wav 40 4 = length binaryString
          \<and> drop 44 wav = map ucast binaryString"
proof -
  define L where "L = length binaryString"
  define riff :: "byte list" where "riff = map ucast (js ''RIFF'')"
  define chunk where "chunk = le_bytes 4 (36 + int L)"
  define wave :: "byte list" where "wave = map ucast (js ''WAVE'')"
  define fmt :: "byte list" where "fmt = map ucast (js ''fmt '')"
  define fmtlen where "fmtlen = le_bytes 4 16"
  define tag where "tag = le_bytes 2 1"
  define chans where "chans = le_bytes 2 1"
  define srate where "srate = le_bytes 4 r"
  define brate where "brate = le_bytes 4 (r * 2)"
  define align where "align = le_bytes 2 2"
  define bits where "bits = le_bytes 2 16"
  define dat :: "byte list" where "dat = map ucast (js ''data'')"
  define dlen where "dlen = le_bytes 4 (int L)"
  define pcm :: "byte list" where "pcm = map ucast binaryString"
  define wav where "wav = riff @ chunk @ wave @ fmt @ fmtlen @ tag @ chans @ srate @ brate
                          @ align @ bits @ dat @ dlen @ pcm"
  note defs = riff_def chunk_def wave_def fmt_def fmtlen_def tag_def chans_def srate_def
    brate_def align_def bits_def dat_def dlen_def pcm_def
  have len [simp]: "length riff = 4" "length chunk = 4" "length wave = 4" "length fmt = 4"
    "length fmtlen = 4" "length tag = 2" "length chans = 2" "length srate = 4"
    "length brate = 4" "length align = 2" "length bits = 2" "length dat = 4"
    "length dlen = 4" "length pcm = L"
    by (simp_all add: defs length_le_bytes length_js L_def)
  have cw: "createWav b64 r = Inr wav"
    unfolding wav_def defs L_def by (rule createWav_explicit [OF dec])
  have url: "createWavUrl b64 r registry =
               Inr (length registry,
                    registry @ [\<lparr>blob_parts = wav, blob_type = js ''audio/wav''\<rparr>])"
    by (simp add: createWavUrl_def cw createObjectURL_def)
  have n: "length wav = L + 44"
    by (simp add: wav_def)
  have f4: "field wav 4 4 = 36 + L"
  proof -
    have "field (riff @ chunk @ wave @ fmt @ fmtlen @ tag @ chans @ srate @ brate
                 @ align @ bits @ dat @ dlen @ pcm) 4 4 = le_value chunk"
      by (rule field_seg) simp_all
    moreover have "le_value chunk = nat (36 + int L)"
      unfolding chunk_def using size by (intro le_value_le_bytes4) (simp_all add: L_def)
    ultimately show ?thesis by (simp add: wav_def)
  qed
  have f20: "field wav 20 2 = 1"
  proof -
    have "field ((riff @ chunk @ wave @ fmt @ fmtlen) @ tag @ chans @ srate @ brate
                 @ align @ bits @ dat @ dlen @ pcm) 20 2 = le_value tag"
      by (rule field_seg) simp_all
    moreover have "le_value tag = nat 1"
      unfolding tag_def by (intro le_value_le_bytes2) simp_all
    ultimately show ?thesis by (simp add: wav_def)
  qed
  have f22: "field wav 22 2 = 1"
  proof -
    have "field ((riff @ chunk @ wave @ fmt @ fmtlen @ tag) @ chans @ srate @ brate
                 @ align @ bits @ dat @ dlen @ pcm) 22 2 = le_value chans"
      by (rule field_seg) simp_all
    moreover have "le_value chans = nat 1"
      unfolding chans_def by (intro le_value_le_bytes2) simp_all
    ultimately show ?thesis by (simp add: wav_def)
  qed
  have f24: "int (field wav 24 4) = r"
  proof -
    have "field ((riff @ chunk @ wave @ fmt @ fmtlen @ tag @ chans) @ srate @ brate
                 @ align @ bits @ dat @ dlen @ pcm) 24 4 = le_value srate"
      by (rule field_seg) simp_all
    moreover have "le_value srate = nat r"
      unfolding srate_def using rate by (intro le_value_le_bytes4) simp_all
    ultimately show ?thesis using rate by (simp add: wav_def)
  qed
  have f28: "int (field wav 28 4) = r * 2"
  proof -
    have "field ((riff @ chunk @ wave @ fmt @ fmtlen @ tag @ chans @ srate) @ brate
                 @ align @ bits @ dat @ dlen @ pcm) 28 4 = le_value brate"
      by (rule field_seg) simp_all
    moreover have "le_value brate = nat (r * 2)"
      unfolding brate_def using rate by (intro le_value_le_bytes4) simp_all
    ultimately show ?thesis using rate by (simp add: wav_def)
  qed
  have f32: "field wav 32 2 = 2"
  proof -
    have "field ((riff @ chunk @ wave @ fmt @ fmtlen @ tag @ chans @ srate @ brate)
                 @ align @ bits @ dat @ dlen @ pcm) 32 2 = le_value align"
      by (rule field_seg) simp_all
    moreover have "le_value align = nat 2"
      unfolding align_def by (intro le_value_le_bytes2) simp_all
    ultimately show ?thesis by (simp add: wav_def)
  qed
  have f34: "field wav 34 2 = 16"
  proof -
    have "field ((riff @ chunk @ wave @ fmt @ fmtlen @ tag @ chans @ srate @ brate @ align)
                 @ bits @ dat @ dlen @ pcm) 34 2 = le_value bits"
      by (rule field_seg) simp_all
    moreover have "le_value bits = nat 16"
      unfolding bits_def by (intro le_value_le_bytes2) simp_all
    ultimately show ?thesis by (simp add: wav_def)
  qed
  have f40: "field wav 40 4 = L"
  proof -
    have "field ((riff @ chunk @ wave @ fmt @ fmtlen @ tag @ chans @ srate @ brate @ align
                  @ bits @ dat) @ dlen @ pcm) 40 4 = le_value dlen"
      by (rule field_seg) simp_all
    moreover have "le_value dlen = nat (int L)"
      unfolding dlen_def using size by (intro le_value_le_bytes4) (simp_all add: L_def)
    ultimately show ?thesis by (simp add: wav_def)
  qed
  have d: "drop 44 wav = pcm"
    by (simp add: wav_def)
  from url n f4 f20 f22 f24 f28 f32 f34 f40 d show ?thesis
    unfolding L_def pcm_def by blast
qed


lemma atob_example: "atob (js ''AAECAw=='') = Inr [0, 1, 2, 3]"
  by (simp add: atob_def js_def is_ascii_whitespace_def strip_padding_def base64_value_def
      Let_def)

theorem createWavUrl_container_witness:
  "atob (js ''AAECAw=='') = Inr [0, 1, 2, 3]
   \<and> 36 + int (length [0, 1, 2, 3 :: 16 word]) < 2 ^ 32
   \<and> (0 :: int) \<le> 24000 \<and> (24000 :: int) * 2 < 2 ^ 32
   \<and> (\<exists>wav. createWavUrl (js ''AAECAw=='') 24000 [] =
                 Inr (0, [\<lparr>blob_parts = wav, blob_type = js ''audio/wav''\<rparr>])
          \<and> length wav = 48
          \<and> field wav 4 4 = 40
          \<and> field wav 20 2 = 1
          \<and> field wav 22 2 = 1
          \<and> field wav 24 4 = 24000
          \<and> field wav 28 4 = 48000
          \<and> field wav 32 2 = 2
          \<and> field wav 34 2 = 16
          \<and> field wav 40 4 = 4
          \<and> drop 44 wav = [0, 1, 2, 3])"
proof -
  have h: "36 + int (length [0, 1, 2, 3 :: 16 word]) < 2 ^ 32" "(0 :: int) \<le> 24000"
    "(24000 :: int) * 2 < 2 ^ 32"
    by simp_all
  from createWavUrl_container [OF atob_example h, of "[]"]
  obtain wav where w:
    "createWavUrl (js ''AAECAw=='') 24000 [] =
       Inr (length ([] :: blob list), [] @ [\<lparr>blob_parts = wav, blob_type = js ''audio/wav''\<rparr>])"
    "length wav = length [0, 1, 2, 3 :: 16 word] + 44"
    "field wav 4 4 = 36 + length [0, 1, 2, 3 :: 16 word]"
    "field wav 20 2 = 1" "field wav 22 2 = 1"
    "int (field wav 24 4) = 24000" "int (field wav 28 4) = 24000 * 2"
    "field wav 32 2 = 2" "field wav 34 2 = 16"
    "field wav 40 4 = length [0, 1, 2, 3 :: 16 word]"
    "drop 44 wav = map ucast [0, 1, 2, 3 :: 16 word]"
    by blast
  show ?thesis
    using w atob_example by (intro conjI exI [of _ wav]) simp_all
qed

text \<open>
  C2, as stated for every sample rate, fails: the header fields are 32 bits wide and the
  values are taken modulo \<open>2 ^ 32\<close>. For the four bytes \<open>AAECAw==\<close> and the sample rate
  \<open>2 ^ 31\<close> the byte rate field at 28..31 holds 0, not \<open>2 ^ 32\<close>.
\<close>

theorem byte_rate_wraps:
  "createWav (js ''AAECAw=='') 2147483648 =
     Inr [82, 73, 70, 70, 40, 0, 0, 0, 87, 65, 86, 69, 102, 109, 116, 32, 16, 0,
          0, 0, 1, 0, 1, 0, 0, 0, 0, 128, 0, 0, 0, 0, 2, 0, 16, 0, 100, 97, 116,
          97, 4, 0, 0, 0, 0, 1, 2, 3]
   \<and> field [82, 73, 70, 70, 40, 0, 0, 0, 87, 65, 86, 69, 102, 109, 116, 32, 16, 0,
          0, 0, 1, 0, 1, 0, 0, 0, 0, 128, 0, 0, 0, 0, 2, 0, 16, 0, 100, 97, 116,
          97, 4, 0, 0, 0, 0, 1, 2, 3] 28 4 = 0"
  by (subst createWav_explicit [OF atob_example])
    (simp add: le_bytes_4 le_bytes_2 js_def field_def le_value_def)

text \<open>
  C8: the encoder is deterministic at the byte level. Two invocations on the same payload
  and sample rate, from whatever registries (the second may be the one the first left),
  either both throw the same error or both succeed, and the URLs they return stand for
  byte-identical blobs.
\<close>

theorem createWavUrl_deterministic:
  "(\<exists>f. createWavUrl b64 r registry = Inl f \<and> createWavUrl b64 r registry' = Inl f)
   \<or> (\<exists>u u' st st' b. createWavUrl b64 r registry = Inr (u, st)
          \<and> createWavUrl b64 r registry' = Inr (u', st')
          \<and> deref st u = Some b \<and> deref st' u' = Some b)"
proof (cases "createWav b64 r")
  case (Inl f)
  then show ?thesis by (simp add: createWavUrl_def)
next
  case (Inr buffer)
  then show ?thesis by (simp add: createWavUrl_def createObjectURL_def deref_def)
qed

section \<open>Properties of the client\<close>

subsection \<open>The checks before the synthesis call\<close>

lemma trim_empty_iff: "trim s = [] \<longleftrightarrow> (\<forall>c \<in> set s. is_js_whitespace c)"
proof -
  have "trim s = [] \<longleftrightarrow> (\<forall>c \<in> set (dropWhile is_js_whitespace s). is_js_whitespace c)"
    by (simp add: trim_def dropWhile_eq_Nil_conv)
  also have "\<dots> \<longleftrightarrow> dropWhile is_js_whitespace s = []"
  proof
    assume a: "\<forall>c \<in> set (dropWhile is_js_whitespace s). is_js_whitespace c"
    show "dropWhile is_js_whitespace s = []"
    proof (rule ccontr)
      assume n: "dropWhile is_js_whitespace s \<noteq> []"
      then have "\<not> is_js_whitespace (hd (dropWhile is_js_whitespace s))"
        by (rule hd_dropWhile)
      moreover have "hd (dropWhile is_js_whitespace s) \<in> set (dropWhile is_js_whitespace s)"
        using n by simp
      ultimately show False
        using a by blast
    qed
  next
    assume e: "dropWhile is_js_whitespace s = []"
    show "\<forall>c \<in> set (dropWhile is_js_whitespace s). is_js_whitespace c"
      unfolding e by simp
  qed
  also have "\<dots> \<longleftrightarrow> (\<forall>c \<in> set s. is_js_whitespace c)"
    by (simp add: dropWhile_eq_Nil_conv)
  finally show ?thesis .
qed

lemma trim_nonblank: "c \<in> set s \<Longrightarrow> \<not> is_js_whitespace c \<Longrightarrow> trim s \<noteq> []"
  by (auto simp: trim_empty_iff)

lemma letters_nonblank: "0 < n \<Longrightarrow> trim (replicate n 97) \<noteq> []"
  by (rule trim_nonblank [of 97]) (simp_all add: is_js_whitespace_def)

lemma hello_nonblank: "trim (js ''Hello world'') \<noteq> []"
  by (rule trim_nonblank [of 72]) (simp_all add: js_def is_js_whitespace_def)

lemma validate_blank:
  assumes "trim t = []"
  shows "validate_and_send u v t s =
           (s\<lparr>error := Some (js ''Text is empty.''), isGenerating := False,
              loadingStatus := None\<rparr>, Returned)"
  by (simp add: validate_and_send_def assms)

lemma validate_exceeds:
  assumes "trim t \<noteq> []" and "MAX_CHARS < length t"
  shows "validate_and_send u v t s =
           (s\<lparr>error := Some (js ''Text exceeds the '' @ show_nat MAX_CHARS
                              @ js '' character limit.''),
              isGenerating := False, loadingStatus := None\<rparr>, Returned)"
  by (simp add: validate_and_send_def assms)

lemma validate_insufficient:
  assumes "trim t \<noteq> []" and "length t \<le> MAX_CHARS"
    and "credits u \<noteq> Infinity" and "js_less (credits u) (int (length t))"
  shows "validate_and_send u v t s =
           (s\<lparr>error := Some (js ''Insufficient credits. You need ''
                              @ show_nat (length t) @ js '' credits but have ''
                              @ show_jsval (credits u) @ js ''. Please upgrade to Premium.''),
              showMonetization := True, isGenerating := False, loadingStatus := None\<rparr>,
            Returned)"
  using assms by (simp add: validate_and_send_def)

lemma validate_sent:
  assumes "trim t \<noteq> []" and "length t \<le> MAX_CHARS"
    and "credits u = Infinity \<or> \<not> js_less (credits u) (int (length t))"
  shows "validate_and_send u v t s =
           (s\<lparr>isGenerating := True, loadingStatus := Some (js ''Generating AI voice...''),
              error := None, abortControllerRef := Some (controllers s),
              controllers := Suc (controllers s),
              calls := calls s @ [GenerateContent (js ''gemini-2.5-flash-preview-tts'')
                                    [TextPart t] (Some (voice_id v))]\<rparr>,
            InFlight u v t (controllers s))"
  using assms by (auto simp: validate_and_send_def)

lemma generateSpeech_tts:
  assumes "user s = Some u" and "mode s = tts"
  shows "generateSpeech s =
           (case validate_and_send u (selectedVoice s) (textInput s) s of
              (s', iv) \<Rightarrow> s'\<lparr>invocations := invocations s' @ [iv]\<rparr>)"
  by (simp add: generateSpeech_def assms)

lemma generateSpeech_compose:
  assumes "user s = Some u" and "mode s \<noteq> tts" and "uploadedAudio s = Some a"
  shows "generateSpeech s =
           s\<lparr>isGenerating := True,
             loadingStatus := Some (if mode s = dubbing then js ''Translating audio...''
                                    else js ''Analyzing audio...''),
             error := None,
             calls := calls s @ [GenerateContent (js ''gemini-2.5-flash'')
               [InlineData (base64 a) (mimeType a),
                TextPart (if mode s = dubbing
                          then js ''Translate the speech in this audio to '' @ targetLanguage s
                               @ js ''. Return ONLY the translated text, nothing else.''
                          else js ''Transcribe the speech in this audio exactly. Return ONLY the transcription, nothing else.'')]
               None],
             invocations := invocations s @ [Composing u (selectedVoice s)]\<rparr>"
  using assms by (simp add: generateSpeech_def Let_def)

lemma settle_composing:
  assumes "k < length (invocations s)" and "invocations s ! k = Composing u v"
  shows "settle k out e s = text_settled k u v out s"
  by (simp add: settle_def assms)


subsection \<open>The example session\<close>

lemma example_session_fields:
  "user example_session = Some example_account"
  "mode example_session = tts"
  "textInput example_session = js ''Hello world''"
  "selectedVoice example_session =
     \<lparr>voice_id = js ''Puck'', voice_name = js ''VoxAI Frank (Friend Style)''\<rparr>"
  "calls example_session = []" "invocations example_session = []"
  "controllers example_session = 0" "history example_session = []"
  "blobs example_session = []" "abortControllerRef example_session = None"
  by (simp_all add: example_session_def session_loaded_def initial_def)

lemma example_in_flight:
  "generateSpeech example_session =
     example_session
       \<lparr>isGenerating := True, loadingStatus := Some (js ''Generating AI voice...''),
        error := None, abortControllerRef := Some 0, controllers := Suc 0,
        calls := [GenerateContent (js ''gemini-2.5-flash-preview-tts'')
                    [TextPart (js ''Hello world'')] (Some (js ''Puck''))],
        invocations := [InFlight example_account
                          \<lparr>voice_id = js ''Puck'', voice_name = js ''VoxAI Frank (Friend Style)''\<rparr>
                          (js ''Hello world'') 0]\<rparr>"
proof -
  have "validate_and_send example_account (selectedVoice example_session)
          (js ''Hello world'') example_session =
        (example_session
           \<lparr>isGenerating := True, loadingStatus := Some (js ''Generating AI voice...''),
            error := None, abortControllerRef := Some (controllers example_session),
            controllers := Suc (controllers example_session),
            calls := calls example_session
                     @ [GenerateContent (js ''gemini-2.5-flash-preview-tts'')
                          [TextPart (js ''Hello world'')]
                          (Some (voice_id (selectedVoice example_session)))]\<rparr>,
         InFlight example_account (selectedVoice example_session) (js ''Hello world'')
           (controllers example_session))"
    by (rule validate_sent)
      (simp_all add: hello_nonblank length_js MAX_CHARS_def example_account_def)
  then show ?thesis
    by (simp add: generateSpeech_tts [of example_session example_account]
        example_session_fields)
qed

lemma example_in_flight_fields:
  "invocations (generateSpeech example_session) ! 0 =
     InFlight example_account
       \<lparr>voice_id = js ''Puck'', voice_name = js ''VoxAI Frank (Friend Style)''\<rparr>
       (js ''Hello world'') 0"
  "0 < length (invocations (generateSpeech example_session))"
  "abortControllerRef (generateSpeech example_session) = Some 0"
  "history (generateSpeech example_session) = []"
  "calls (generateSpeech example_session) =
     [GenerateContent (js ''gemini-2.5-flash-preview-tts'')
        [TextPart (js ''Hello world'')] (Some (js ''Puck''))]"
  "user (generateSpeech example_session) = Some example_account"
  "blobs (generateSpeech example_session) = []"
  by (simp_all add: example_in_flight example_session_fields)

lemma example_dubbing_fields:
  "user example_dubbing = Some example_account"
  "mode example_dubbing = dubbing"
  "uploadedAudio example_dubbing =
     Some \<lparr>up_file = example_file, base64 = Some (js ''AAECAw==''), mimeType = js ''audio/wav''\<rparr>"
  "calls example_dubbing = []" "invocations example_dubbing = []"
  "selectedVoice example_dubbing =
     \<lparr>voice_id = js ''Puck'', voice_name = js ''VoxAI Frank (Friend Style)''\<rparr>"
proof -
  have "split_comma_1 (js ''data:audio/wav;base64,AAECAw=='') = Some (js ''AAECAw=='')"
    by (simp add: split_comma_1_def js_def)
  then show
    "user example_dubbing = Some example_account"
    "mode example_dubbing = dubbing"
    "uploadedAudio example_dubbing =
       Some \<lparr>up_file = example_file, base64 = Some (js ''AAECAw==''), mimeType = js ''audio/wav''\<rparr>"
    "calls example_dubbing = []" "invocations example_dubbing = []"
    "selectedVoice example_dubbing =
       \<lparr>voice_id = js ''Puck'', voice_name = js ''VoxAI Frank (Friend Style)''\<rparr>"
    by (simp_all add: example_dubbing_def onloadend_def setMode_def example_session_fields
        example_file_def)
qed

subsection \<open>Cancellation\<close>

text \<open>
  The rejection of the abort listener is \<open>new Error('AbortError')\<close>: its \<open>name\<close> is
  \<open>Error\<close>, and its message \<open>AbortError\<close> does not contain \<open>abort\<close> in lower case.
\<close>

lemma abort_error_unrecognised:
  "\<not> abort_recognised (Exn (js ''Error'') (Some (js ''AbortError'')))"
  by (simp add: abort_recognised_def js_def)

lemma abort_error_no_quota:
  "\<not> quota_exhausted (Exn (js ''Error'') (Some (js ''AbortError'')))"
  by (simp add: quota_exhausted_def js_def)

lemma race_rejected_abort_error:
  "race_rejected (Exn (js ''Error'') (Some (js ''AbortError''))) s =
     s\<lparr>error := Some (js ''AbortError''), isGenerating := False, loadingStatus := None,
       abortControllerRef := None\<rparr>"
  by (simp add: race_rejected_def catch_block_def finally_block_def abort_error_unrecognised
      abort_error_no_quota js_nonempty)



lemma fold_abort_error:
  "xs \<noteq> [] \<Longrightarrow>
   error (fold (\<lambda>iv. race_rejected (Exn (js ''Error'') (Some (js ''AbortError'')))) xs s)
     = Some (js ''AbortError'')"
proof (induction xs arbitrary: s)
  case Nil
  then show ?case by simp
next
  case (Cons x xs)
  show ?case
  proof (cases "xs = []")
    case True
    then show ?thesis by (simp add: race_rejected_abort_error)
  next
    case False
    then show ?thesis by (simp add: Cons.IH)
  qed
qed

lemma handleCancel_fires:
  assumes "abortControllerRef s = Some c"
  shows "handleCancel s =
           fold (\<lambda>iv. race_rejected (Exn (js ''Error'') (Some (js ''AbortError''))))
             (filter (aborted_by c) (invocations s))
             (s\<lparr>abortControllerRef := None, isGenerating := False, loadingStatus := None,
                invocations := map (\<lambda>iv. if aborted_by c iv then Returned else iv)
                                 (invocations s)\<rparr>)"
  by (simp add: handleCancel_def assms)

lemma in_flight_is_hit:
  assumes "k < length (invocations s)" and "invocations s ! k = InFlight u v t c"
  shows "filter (aborted_by c) (invocations s) \<noteq> []"
proof -
  have "invocations s ! k \<in> set (invocations s)"
    using assms(1) by simp
  moreover have "aborted_by c (invocations s ! k)"
    by (simp add: assms(2) aborted_by_def)
  ultimately show ?thesis
    by (auto simp: filter_empty_conv)
qed



text \<open>
  C5, in the code: a cancellation is not silent. When \<open>handleCancel\<close> runs while a synthesis
  call is in flight, the \<open>catch\<close> block does not recognise the rejection
  \<open>new Error('AbortError')\<close> as a cancellation, and sets its message \<open>AbortError\<close> as the
  error shown to the user.
\<close>

theorem cancel_shows_error:
  assumes "k < length (invocations s)"
    and "invocations s ! k = InFlight u v t c"
    and "abortControllerRef s = Some c"
  shows "error (handleCancel s) = Some (js ''AbortError'')"
  unfolding handleCancel_fires [OF assms(3)]
  by (rule fold_abort_error) (rule in_flight_is_hit [OF assms(1,2)])

theorem cancel_shows_error_witness:
  "0 < length (invocations (generateSpeech example_session))
   \<and> invocations (generateSpeech example_session) ! 0 =
       InFlight example_account
         \<lparr>voice_id = js ''Puck'', voice_name = js ''VoxAI Frank (Friend Style)''\<rparr>
         (js ''Hello world'') 0
   \<and> abortControllerRef (generateSpeech example_session) = Some 0
   \<and> error (handleCancel (generateSpeech example_session)) = Some (js ''AbortError'')"
  using cancel_shows_error [OF example_in_flight_fields(2) example_in_flight_fields(1)
      example_in_flight_fields(3)] example_in_flight_fields(1-3)
  by simp

subsection \<open>A successful synthesis\<close>






subsection \<open>The uploaded audio\<close>







subsection \<open>The length ceiling\<close>

lemma exceeds_message:
  "js ''Text exceeds the '' @ show_nat MAX_CHARS @ js '' character limit.''
     = js ''Text exceeds the 20000 character limit.''"
  by (simp add: MAX_CHARS_def show_nat.simps js_def)

lemma other_messages:
  "js ''Text is empty.'' \<noteq> js ''Text exceeds the 20000 character limit.''"
  "js ''Insufficient credits. You need '' @ x \<noteq> js ''Text exceeds the 20000 character limit.''"
  "js ''Failed to process audio file. '' @ x \<noteq> js ''Text exceeds the 20000 character limit.''"
  by (simp_all add: js_def)

lemma ceiling_validate:
  assumes "validate_and_send u v t s = (s', iv)"
  shows "(length t = 20001 \<longrightarrow>
            calls s' = calls s \<and> error s' \<noteq> None
          \<and> (trim t \<noteq> [] \<longrightarrow> error s' = Some (js ''Text exceeds the 20000 character limit.'')))
       \<and> (length t = 20000 \<longrightarrow>
            error s' \<noteq> Some (js ''Text exceeds the 20000 character limit.'')
          \<and> (trim t \<noteq> [] \<and> (credits u = Infinity \<or> \<not> js_less (credits u) 20000) \<longrightarrow>
                calls s' = calls s @ [GenerateContent (js ''gemini-2.5-flash-preview-tts'')
                                        [TextPart t] (Some (voice_id v))]))"
proof (cases "trim t = []")
  case True
  from assms show ?thesis
    by (auto simp: validate_blank [OF True] other_messages True)
next
  case nonblank: False
  show ?thesis
  proof (intro conjI impI)
    assume l: "length t = 20001"
    then have "MAX_CHARS < length t"
      by (simp add: MAX_CHARS_def)
    from assms validate_exceeds [OF nonblank this, of u v s]
    have s': "s' = s\<lparr>error := Some (js ''Text exceeds the 20000 character limit.''),
                      isGenerating := False, loadingStatus := None\<rparr>"
      by (simp add: exceeds_message)
    show "calls s' = calls s" "error s' \<noteq> None"
      "error s' = Some (js ''Text exceeds the 20000 character limit.'')"
      by (simp_all add: s')
  next
    assume l: "length t = 20000"
    then have le: "length t \<le> MAX_CHARS"
      by (simp add: MAX_CHARS_def)
    show "error s' \<noteq> Some (js ''Text exceeds the 20000 character limit.'')"
    proof (cases "credits u \<noteq> Infinity \<and> js_less (credits u) (int (length t))")
      case True
      with assms validate_insufficient [OF nonblank le, of u v s] show ?thesis
        by (auto simp: other_messages)
    next
      case False
      then have "credits u = Infinity \<or> \<not> js_less (credits u) (int (length t))"
        by blast
      from assms validate_sent [OF nonblank le this, of v s] show ?thesis
        by auto
    qed
  next
    assume l: "length t = 20000"
      and "trim t \<noteq> [] \<and> (credits u = Infinity \<or> \<not> js_less (credits u) 20000)"
    then have "credits u = Infinity \<or> \<not> js_less (credits u) (int (length t))"
      and le: "length t \<le> MAX_CHARS"
      by (simp_all add: MAX_CHARS_def)
    from assms validate_sent [OF nonblank le this(1), of v s]
    show "calls s' = calls s @ [GenerateContent (js ''gemini-2.5-flash-preview-tts'')
                                   [TextPart t] (Some (voice_id v))]"
      by auto
  qed
qed

lemma ceiling_text_settled:
  assumes "resp_text r = Some t"
  shows "(length t = 20001 \<longrightarrow>
            calls (text_settled k u v (Resolved r) s) = calls s
          \<and> error (text_settled k u v (Resolved r) s) \<noteq> None
          \<and> (trim t \<noteq> [] \<longrightarrow> error (text_settled k u v (Resolved r) s)
                = Some (js ''Text exceeds the 20000 character limit.'')))
       \<and> (length t = 20000 \<longrightarrow>
            error (text_settled k u v (Resolved r) s)
              \<noteq> Some (js ''Text exceeds the 20000 character limit.'')
          \<and> (trim t \<noteq> [] \<and> (credits u = Infinity \<or> \<not> js_less (credits u) 20000) \<longrightarrow>
                calls (text_settled k u v (Resolved r) s)
                  = calls s @ [GenerateContent (js ''gemini-2.5-flash-preview-tts'')
                                 [TextPart t] (Some (voice_id v))]))"
proof (cases "trim t = []")
  case True
  then show ?thesis
    by (simp add: text_settled_def assms compose_failed_def other_messages)
next
  case False
  obtain s' iv where v: "validate_and_send u v t (s\<lparr>textInput := t\<rparr>) = (s', iv)"
    by (cases "validate_and_send u v t (s\<lparr>textInput := t\<rparr>)") blast
  have "text_settled k u v (Resolved r) s = s'\<lparr>invocations := (invocations s')[k := iv]\<rparr>"
    by (simp add: text_settled_def assms False v)
  then show ?thesis
    using ceiling_validate [OF v] by simp
qed

text \<open>
  C6: for a logged-in user, in every mode, the length check is made on the composed
  text: the text typed in text-to-speech mode, and in the other modes the text the
  transcription or translation call resolved with, once that call has been sent and has
  settled. A composed text of 20001 characters is rejected with an error (the message of
  the ceiling when the text is not blank) and no further call is sent; a composed text of
  20000 characters is not rejected by the ceiling, and the synthesis call for it is sent
  when it is not blank and the balance suffices.
\<close>

theorem ceiling_after_composition:
  assumes "user s = Some u"
  shows
    "(mode s = tts \<longrightarrow>
        (length (textInput s) = 20001 \<longrightarrow>
           calls (generateSpeech s) = calls s
         \<and> error (generateSpeech s) \<noteq> None
         \<and> (trim (textInput s) \<noteq> [] \<longrightarrow>
              error (generateSpeech s) = Some (js ''Text exceeds the 20000 character limit.'')))
      \<and> (length (textInput s) = 20000 \<longrightarrow>
           error (generateSpeech s) \<noteq> Some (js ''Text exceeds the 20000 character limit.'')
         \<and> (trim (textInput s) \<noteq> []
              \<and> (credits u = Infinity \<or> \<not> js_less (credits u) 20000) \<longrightarrow>
              calls (generateSpeech s)
                = calls s @ [GenerateContent (js ''gemini-2.5-flash-preview-tts'')
                               [TextPart (textInput s)] (Some (voice_id (selectedVoice s)))])))
   \<and> (mode s \<noteq> tts \<and> uploadedAudio s = Some a \<and> resp_text r = Some t \<longrightarrow>
        (\<exists>prompt. calls (generateSpeech s)
           = calls s @ [GenerateContent (js ''gemini-2.5-flash'')
                          [InlineData (base64 a) (mimeType a), TextPart prompt] None])
      \<and> (length t = 20001 \<longrightarrow>
           calls (settle (length (invocations s)) (Resolved r) e (generateSpeech s))
             = calls (generateSpeech s)
         \<and> error (settle (length (invocations s)) (Resolved r) e (generateSpeech s)) \<noteq> None
         \<and> (trim t \<noteq> [] \<longrightarrow>
              error (settle (length (invocations s)) (Resolved r) e (generateSpeech s))
                = Some (js ''Text exceeds the 20000 character limit.'')))
      \<and> (length t = 20000 \<longrightarrow>
           error (settle (length (invocations s)) (Resolved r) e (generateSpeech s))
             \<noteq> Some (js ''Text exceeds the 20000 character limit.'')
         \<and> (trim t \<noteq> [] \<and> (credits u = Infinity \<or> \<not> js_less (credits u) 20000) \<longrightarrow>
              calls (settle (length (invocations s)) (Resolved r) e (generateSpeech s))
                = calls (generateSpeech s)
                  @ [GenerateContent (js ''gemini-2.5-flash-preview-tts'')
                       [TextPart t] (Some (voice_id (selectedVoice s)))])))"
proof (intro conjI)
  show "mode s = tts \<longrightarrow>
        (length (textInput s) = 20001 \<longrightarrow>
           calls (generateSpeech s) = calls s
         \<and> error (generateSpeech s) \<noteq> None
         \<and> (trim (textInput s) \<noteq> [] \<longrightarrow>
              error (generateSpeech s) = Some (js ''Text exceeds the 20000 character limit.'')))
      \<and> (length (textInput s) = 20000 \<longrightarrow>
           error (generateSpeech s) \<noteq> Some (js ''Text exceeds the 20000 character limit.'')
         \<and> (trim (textInput s) \<noteq> []
              \<and> (credits u = Infinity \<or> \<not> js_less (credits u) 20000) \<longrightarrow>
              calls (generateSpeech s)
                = calls s @ [GenerateContent (js ''gemini-2.5-flash-preview-tts'')
                               [TextPart (textInput s)] (Some (voice_id (selectedVoice s)))]))"
  proof
    assume m: "mode s = tts"
    obtain s' iv where v: "validate_and_send u (selectedVoice s) (textInput s) s = (s', iv)"
      by (cases "validate_and_send u (selectedVoice s) (textInput s) s") blast
    have "generateSpeech s = s'\<lparr>invocations := invocations s' @ [iv]\<rparr>"
      by (simp add: generateSpeech_tts [OF assms m] v)
    then show "(length (textInput s) = 20001 \<longrightarrow>
           calls (generateSpeech s) = calls s
         \<and> error (generateSpeech s) \<noteq> None
         \<and> (trim (textInput s) \<noteq> [] \<longrightarrow>
              error (generateSpeech s) = Some (js ''Text exceeds the 20000 character limit.'')))
      \<and> (length (textInput s) = 20000 \<longrightarrow>
           error (generateSpeech s) \<noteq> Some (js ''Text exceeds the 20000 character limit.'')
         \<and> (trim (textInput s) \<noteq> []
              \<and> (credits u = Infinity \<or> \<not> js_less (credits u) 20000) \<longrightarrow>
              calls (generateSpeech s)
                = calls s @ [GenerateContent (js ''gemini-2.5-flash-preview-tts'')
                               [TextPart (textInput s)] (Some (voice_id (selectedVoice s)))]))"
      using ceiling_validate [OF v] by simp
  qed
next
  show "mode s \<noteq> tts \<and> uploadedAudio s = Some a \<and> resp_text r = Some t \<longrightarrow>
        (\<exists>prompt. calls (generateSpeech s)
           = calls s @ [GenerateContent (js ''gemini-2.5-flash'')
                          [InlineData (base64 a) (mimeType a), TextPart prompt] None])
      \<and> (length t = 20001 \<longrightarrow>
           calls (settle (length (invocations s)) (Resolved r) e (generateSpeech s))
             = calls (generateSpeech s)
         \<and> error (settle (length (invocations s)) (Resolved r) e (generateSpeech s)) \<noteq> None
         \<and> (trim t \<noteq> [] \<longrightarrow>
              error (settle (length (invocations s)) (Resolved r) e (generateSpeech s))
                = Some (js ''Text exceeds the 20000 character limit.'')))
      \<and> (length t = 20000 \<longrightarrow>
           error (settle (length (invocations s)) (Resolved r) e (generateSpeech s))
             \<noteq> Some (js ''Text exceeds the 20000 character limit.'')
         \<and> (trim t \<noteq> [] \<and> (credits u = Infinity \<or> \<not> js_less (credits u) 20000) \<longrightarrow>
              calls (settle (length (invocations s)) (Resolved r) e (generateSpeech s))
                = calls (generateSpeech s)
                  @ [GenerateContent (js ''gemini-2.5-flash-preview-tts'')
                       [TextPart t] (Some (voice_id (selectedVoice s)))]))"
  proof
    assume h: "mode s \<noteq> tts \<and> uploadedAudio s = Some a \<and> resp_text r = Some t"
    note g = generateSpeech_compose [OF assms, of a]
    have g1: "invocations (generateSpeech s) = invocations s @ [Composing u (selectedVoice s)]"
      using h by (simp add: g)
    have st: "settle (length (invocations s)) (Resolved r) e (generateSpeech s)
                = text_settled (length (invocations s)) u (selectedVoice s) (Resolved r)
                    (generateSpeech s)"
      by (rule settle_composing) (simp_all add: g1)
    have c: "\<exists>prompt. calls (generateSpeech s)
               = calls s @ [GenerateContent (js ''gemini-2.5-flash'')
                              [InlineData (base64 a) (mimeType a), TextPart prompt] None]"
      using h by (simp add: g)
    from h have rt: "resp_text r = Some t"
      by simp
    show "(\<exists>prompt. calls (generateSpeech s)
           = calls s @ [GenerateContent (js ''gemini-2.5-flash'')
                          [InlineData (base64 a) (mimeType a), TextPart prompt] None])
      \<and> (length t = 20001 \<longrightarrow>
           calls (settle (length (invocations s)) (Resolved r) e (generateSpeech s))
             = calls (generateSpeech s)
         \<and> error (settle (length (invocations s)) (Resolved r) e (generateSpeech s)) \<noteq> None
         \<and> (trim t \<noteq> [] \<longrightarrow>
              error (settle (length (invocations s)) (Resolved r) e (generateSpeech s))
                = Some (js ''Text exceeds the 20000 character limit.'')))
      \<and> (length t = 20000 \<longrightarrow>
           error (settle (length (invocations s)) (Resolved r) e (generateSpeech s))
             \<noteq> Some (js ''Text exceeds the 20000 character limit.'')
         \<and> (trim t \<noteq> [] \<and> (credits u = Infinity \<or> \<not> js_less (credits u) 20000) \<longrightarrow>
              calls (settle (length (invocations s)) (Resolved r) e (generateSpeech s))
                = calls (generateSpeech s)
                  @ [GenerateContent (js ''gemini-2.5-flash-preview-tts'')
                       [TextPart t] (Some (voice_id (selectedVoice s)))]))"
      unfolding st
      using c ceiling_text_settled [OF rt, of "length (invocations s)" u "selectedVoice s"
          "generateSpeech s"]
      by blast
  qed
qed

theorem ceiling_after_composition_witness:
  "user (example_session\<lparr>textInput := replicate 20001 97\<rparr>) = Some example_account
   \<and> error (generateSpeech (example_session\<lparr>textInput := replicate 20001 97\<rparr>))
       = Some (js ''Text exceeds the 20000 character limit.'')
   \<and> calls (generateSpeech (example_session\<lparr>textInput := replicate 20001 97\<rparr>)) = []
   \<and> calls (generateSpeech (example_session\<lparr>textInput := replicate 20000 97\<rparr>))
       = [GenerateContent (js ''gemini-2.5-flash-preview-tts'')
            [TextPart (replicate 20000 97)] (Some (js ''Puck''))]
   \<and> mode example_dubbing = dubbing
   \<and> (\<exists>prompt. calls (generateSpeech example_dubbing)
         = [GenerateContent (js ''gemini-2.5-flash'')
              [InlineData (Some (js ''AAECAw=='')) (js ''audio/wav''), TextPart prompt] None])
   \<and> error (settle 0 (Resolved \<lparr>resp_text = Some (replicate 20001 97), resp_audio = None\<rparr>)
               example_env (generateSpeech example_dubbing))
       = Some (js ''Text exceeds the 20000 character limit.'')
   \<and> calls (settle 0 (Resolved \<lparr>resp_text = Some (replicate 20001 97), resp_audio = None\<rparr>)
               example_env (generateSpeech example_dubbing))
       = calls (generateSpeech example_dubbing)
   \<and> calls (settle 0 (Resolved \<lparr>resp_text = Some (replicate 20000 97), resp_audio = None\<rparr>)
               example_env (generateSpeech example_dubbing))
       = calls (generateSpeech example_dubbing)
         @ [GenerateContent (js ''gemini-2.5-flash-preview-tts'')
              [TextPart (replicate 20000 97)] (Some (js ''Puck''))]"
proof -
  let ?long = "example_session\<lparr>textInput := replicate 20001 97\<rparr>"
  let ?full = "example_session\<lparr>textInput := replicate 20000 97\<rparr>"
  let ?a = "\<lparr>up_file = example_file, base64 = Some (js ''AAECAw==''), mimeType = js ''audio/wav''\<rparr>"
  let ?rl = "\<lparr>resp_text = Some (replicate 20001 97), resp_audio = None\<rparr>"
  let ?rf = "\<lparr>resp_text = Some (replicate 20000 97), resp_audio = None\<rparr>"
  have u: "user ?long = Some example_account" "user ?full = Some example_account"
    by (simp_all add: example_session_fields)
  have f: "mode ?long = tts" "length (textInput ?long) = 20001" "trim (textInput ?long) \<noteq> []"
    "calls ?long = []"
    "mode ?full = tts" "length (textInput ?full) = 20000" "trim (textInput ?full) \<noteq> []"
    "calls ?full = []" "selectedVoice ?full = \<lparr>voice_id = js ''Puck'', voice_name = js ''VoxAI Frank (Friend Style)''\<rparr>"
    "textInput ?full = replicate 20000 97"
    "\<not> js_less (credits example_account) 20000"
    by (simp_all add: example_session_fields letters_nonblank example_account_def)
  from ceiling_after_composition [OF u(1), THEN conjunct1] f
  have a: "error (generateSpeech ?long) = Some (js ''Text exceeds the 20000 character limit.'')"
    "calls (generateSpeech ?long) = []"
    by simp_all
  from ceiling_after_composition [OF u(2), THEN conjunct1] f
  have b: "calls (generateSpeech ?full)
             = [GenerateContent (js ''gemini-2.5-flash-preview-tts'')
                  [TextPart (replicate 20000 97)] (Some (js ''Puck''))]"
    by simp
  have g: "mode example_dubbing \<noteq> tts" "length (replicate 20001 (97 :: 16 word)) = 20001"
    "length (replicate 20000 (97 :: 16 word)) = 20000"
    "trim (replicate 20001 97) \<noteq> []" "trim (replicate 20000 97) \<noteq> []"
    "resp_text ?rl = Some (replicate 20001 97)" "resp_text ?rf = Some (replicate 20000 97)"
    by (simp_all add: example_dubbing_fields letters_nonblank)
  from ceiling_after_composition [OF example_dubbing_fields(1), THEN conjunct2,
      of ?a ?rl "replicate 20001 97" example_env] g example_dubbing_fields f(11)
  have c: "\<exists>prompt. calls (generateSpeech example_dubbing)
         = [GenerateContent (js ''gemini-2.5-flash'')
              [InlineData (Some (js ''AAECAw=='')) (js ''audio/wav''), TextPart prompt] None]"
    "error (settle 0 (Resolved ?rl) example_env (generateSpeech example_dubbing))
       = Some (js ''Text exceeds the 20000 character limit.'')"
    "calls (settle 0 (Resolved ?rl) example_env (generateSpeech example_dubbing))
       = calls (generateSpeech example_dubbing)"
    by simp_all
  from ceiling_after_composition [OF example_dubbing_fields(1), THEN conjunct2,
      of ?a ?rf "replicate 20000 97" example_env] g example_dubbing_fields f(11)
  have d: "calls (settle 0 (Resolved ?rf) example_env (generateSpeech example_dubbing))
       = calls (generateSpeech example_dubbing)
         @ [GenerateContent (js ''gemini-2.5-flash-preview-tts'')
              [TextPart (replicate 20000 97)] (Some (js ''Puck''))]"
    by simp
  from u(1) a b c d example_dubbing_fields(2) show ?thesis
    by blast
qed

subsection \<open>The credit check\<close>


lemma unbounded_credit_proceeds:
  assumes "user s = Some u" and "mode s = tts"
    and "trim (textInput s) \<noteq> []" and "length (textInput s) \<le> MAX_CHARS"
    and "credits u = Infinity"
  shows "calls (generateSpeech s)
           = calls s @ [GenerateContent (js ''gemini-2.5-flash-preview-tts'')
                          [TextPart (textInput s)] (Some (voice_id (selectedVoice s)))]"
  using assms(5)
  by (simp add: generateSpeech_tts [OF assms(1,2)] validate_sent [OF assms(3,4)])






end
